theory Spec2Isabelle
  imports Main "HOL-Library.AList"
begin

section \<open>The user minibatch source of the CNTK manual notebook\<close>

text \<open>
  The development embeds the class \<open>MyMultiWorkerDataSource\<close> of
  \<^verbatim>\<open>notebooks/Manual/Manual_How_to_create_user_minibatch_sources.ipynb\<close>.
  Python integers are \<open>int\<close>, the instance is a record that every method takes and
  returns, an exception is the left summand of a sum and carries the instance as the
  raise leaves it, and a call that never returns is \<open>None\<close>.
\<close>

subsection \<open>Python primitives used by the class\<close>

datatype py_error = IndexError | KeyError | ZeroDivisionError | ValueError

text \<open>\<open>xs[i]\<close> on a list: a negative index counts from the end, anything else out of
  range raises \<open>IndexError\<close>.\<close>

definition getitem :: "'a list \<Rightarrow> int \<Rightarrow> py_error + 'a" where
  "getitem xs i =
     (if 0 \<le> i \<and> i < int (length xs) then Inr (xs ! nat i)
      else if i < 0 \<and> - int (length xs) \<le> i then Inr (xs ! nat (int (length xs) + i))
      else Inl IndexError)"

text \<open>\<open>a % b\<close> on integers: floored remainder (the sign follows \<open>b\<close>, as HOL's
  \<open>mod\<close> on \<open>int\<close>), \<open>ZeroDivisionError\<close> for \<open>b = 0\<close>.\<close>

definition py_mod :: "int \<Rightarrow> int \<Rightarrow> py_error + int" where
  "py_mod a b = (if b = 0 then Inl ZeroDivisionError else Inr (a mod b))"

text \<open>The truth value of a list, as \<open>if xs\<close> and \<open>xs or ys\<close> take it: not empty.\<close>

definition truthy :: "'a list \<Rightarrow> bool" where
  "truthy xs = (xs \<noteq> [])"

text \<open>The text is taken to be ASCII. \<open>str.strip()\<close> removes the white space of both ends.\<close>

definition is_space :: "char \<Rightarrow> bool" where
  "is_space c = (let k = (of_char c :: nat) in k = 32 \<or> (9 \<le> k \<and> k \<le> 13) \<or> (28 \<le> k \<and> k \<le> 31))"

definition strip :: "string \<Rightarrow> string" where
  "strip s = rev (dropWhile is_space (rev (dropWhile is_space s)))"

text \<open>\<open>s.split(c)\<close> for a one-character separator: every occurrence cuts, empty pieces
  are kept, and the empty string gives one empty piece.\<close>

fun split :: "char \<Rightarrow> string \<Rightarrow> string list" where
  "split c [] = [[]]"
| "split c (x # xs) =
     (if x = c then [] # split c xs
      else (case split c xs of [] \<Rightarrow> [[x]] | w # ws \<Rightarrow> (x # w) # ws))"

text \<open>\<open>s.split(c, 1)\<close>: cut at the first occurrence only.\<close>

definition split1 :: "char \<Rightarrow> string \<Rightarrow> string list" where
  "split1 c s =
     (if c \<in> set s then [takeWhile (\<lambda>x. x \<noteq> c) s, tl (dropWhile (\<lambda>x. x \<noteq> c) s)] else [s])"

text \<open>\<open>int(s)\<close> of Python 3.5 on ASCII text: surrounding white space, an optional sign,
  then one or more decimal digits; anything else raises \<open>ValueError\<close>.\<close>

definition is_digit :: "char \<Rightarrow> bool" where
  "is_digit c = (let k = (of_char c :: nat) in 48 \<le> k \<and> k \<le> 57)"

definition digits_value :: "string \<Rightarrow> int" where
  "digits_value ds = foldl (\<lambda>acc c. 10 * acc + (int (of_char c) - 48)) 0 ds"

definition py_int :: "string \<Rightarrow> py_error + int" where
  "py_int s =
     (let t = strip s;
          neg = (t \<noteq> [] \<and> hd t = CHR ''-'');
          ds = (if t \<noteq> [] \<and> (hd t = CHR ''-'' \<or> hd t = CHR ''+'') then tl t else t)
      in if ds \<noteq> [] \<and> list_all is_digit ds
         then Inr (if neg then - digits_value ds else digits_value ds)
         else Inl ValueError)"

text \<open>
  \<open>float(s)\<close> of Python 3.5 on ASCII text, which is what numpy applies to each token
  when it builds a \<open>float32\<close> array from strings: surrounding white space, an optional
  sign, then \<open>inf\<close>, \<open>infinity\<close> or \<open>nan\<close> in any case, or decimal digits with an
  optional point (digits on at least one side of it) and an optional exponent. Anything
  else raises \<open>ValueError\<close>. Only whether the conversion succeeds is modelled: the
  number itself is a floating-point value and is kept as the token it was read from.
\<close>

definition to_lower :: "char \<Rightarrow> char" where
  "to_lower c = (let k = (of_char c :: nat) in if 65 \<le> k \<and> k \<le> 90 then char_of (k + 32) else c)"

definition exponent_ok :: "string \<Rightarrow> bool" where
  "exponent_ok r =
     (case r of
        [] \<Rightarrow> True
      | c # x \<Rightarrow>
          (c = CHR ''e'' \<or> c = CHR ''E'') \<and>
          (let y = (case x of
                      [] \<Rightarrow> []
                    | s # z \<Rightarrow> if s = CHR ''+'' \<or> s = CHR ''-'' then z else x)
           in truthy y \<and> list_all is_digit y))"

definition decimal_ok :: "string \<Rightarrow> bool" where
  "decimal_ok u =
     (let int_part = takeWhile is_digit u;
          r1 = dropWhile is_digit u;
          has_point = (case r1 of [] \<Rightarrow> False | c # x \<Rightarrow> c = CHR ''.'');
          frac_part = (if has_point then takeWhile is_digit (tl r1) else []);
          r2 = (if has_point then dropWhile is_digit (tl r1) else r1)
      in (truthy int_part \<or> truthy frac_part) \<and> exponent_ok r2)"

definition float_ok :: "string \<Rightarrow> bool" where
  "float_ok s =
     (let t = strip s;
          u = (case t of
                 [] \<Rightarrow> []
               | c # x \<Rightarrow> if c = CHR ''+'' \<or> c = CHR ''-'' then x else t);
          w = map to_lower u
      in w = ''inf'' \<or> w = ''infinity'' \<or> w = ''nan'' \<or> decimal_ok u)"

text \<open>
  \<open>np.asarray(arrays, dtype=np.float32)\<close> on a list of arrays stacks them, and needs
  them all of one shape, or it raises \<open>ValueError\<close>. An array is a list of rows here,
  and its shape is given by the lengths of its rows.
\<close>

definition stackable :: "'a list list list \<Rightarrow> bool" where
  "stackable arrays =
     (case arrays of
        [] \<Rightarrow> True
      | a0 # rest \<Rightarrow> list_all (\<lambda>a. map length a = map length a0) rest)"

subsection \<open>The instance\<close>

text \<open>\<open>StreamInformation(name, stream_id, storage_format, dtype, shape)\<close> of the toolkit,
  kept as the five values it is built from.\<close>

record stream_information =
  si_name :: string
  si_stream_id :: int
  si_storage_format :: string
  si_dtype :: string
  si_shape :: "int list"

text \<open>
  One value of \<open>self.data\<close>: the dictionary \<open>{'features': [...], 'labels': array}\<close>.
  The key \<open>'features'\<close> is always there; the key \<open>'labels'\<close> only when a line of the
  sequence had a label field, hence the \<open>option\<close>. The label array is
  \<open>np.asarray([tokens], dtype=np.float32)\<close>, a list of rows here (one row, as the
  class builds it), each number kept as the token it was converted from.
\<close>

record seq_entry =
  seq_features :: "int list"
  seq_labels :: "string list list option"

text \<open>\<open>self.data\<close> is a dictionary: an association list in insertion order with unique
  keys (\<open>map_of\<close> reads it, \<open>AList.update\<close> writes it).\<close>

type_synonym seq_index = "(int \<times> seq_entry) list"

record source =
  f_dim :: int
  l_dim :: int
  data :: seq_index
  fsi :: stream_information
  lsi :: stream_information
  sequences :: "int list"
  next_seq_idx :: int

subsection \<open>\<open>_prepare_data\<close>\<close>

text \<open>
  The body of the \<open>for line in sample_data.split('\n')\<close> loop, on one line and the
  dictionary built so far. The steps are in the order of the source, so the first
  exception of the source is the error returned:
  unpacking \<open>line.split('|', 1)\<close> into two names needs two pieces (\<open>ValueError\<close>),
  \<open>int(seq_id.strip())\<close> may raise \<open>ValueError\<close>, the entry is created before the
  feature is parsed, \<open>features[1]\<close> may raise \<open>IndexError\<close>, and \<open>np.asarray\<close> raises
  \<open>ValueError\<close> on a label token that is not a number.
\<close>

definition prepare_line :: "string \<Rightarrow> seq_index \<Rightarrow> py_error + seq_index" where
  "prepare_line line0 d =
     (let line = strip line0 in
      if \<not> truthy line then Inr d
      else case split1 (CHR ''|'') line of
        [seq_id_str, data_str] \<Rightarrow>
          (let fields = split (CHR ''|'') data_str in
           case py_int (strip seq_id_str) of
             Inl e \<Rightarrow> Inl e
           | Inr seq_id \<Rightarrow>
               (let d1 = (if seq_id \<notin> fst ` set d
                          then AList.update seq_id \<lparr>seq_features = [], seq_labels = None\<rparr> d
                          else d);
                    features = split (CHR '' '') (hd fields)
                in case getitem features 1 of
                     Inl e \<Rightarrow> Inl e
                   | Inr f1 \<Rightarrow>
                       (case py_int (hd (split (CHR '':'') f1)) of
                          Inl e \<Rightarrow> Inl e
                        | Inr vocab_idx \<Rightarrow>
                            (let d2 = AList.map_entry seq_id
                                        (\<lambda>e. e\<lparr>seq_features := seq_features e @ [vocab_idx]\<rparr>) d1
                             in if length fields = 2
                                then (let tokens = tl (split (CHR '' '') (fields ! 1))
                                      in if list_all float_ok tokens
                                         then Inr (AList.map_entry seq_id
                                                (\<lambda>e. e\<lparr>seq_labels := Some [tokens]\<rparr>) d2)
                                         else Inl ValueError)
                                else Inr d2))))
      | _ \<Rightarrow> Inl ValueError)"

fun prepare_lines :: "string list \<Rightarrow> seq_index \<Rightarrow> py_error + seq_index" where
  "prepare_lines [] d = Inr d"
| "prepare_lines (l # ls) d =
     (case prepare_line l d of Inl e \<Rightarrow> Inl e | Inr d' \<Rightarrow> prepare_lines ls d')"

text \<open>\<open>_prepare_data\<close> reads the module-level string \<open>sample_data\<close>, here its argument.\<close>

definition prepare_data :: "string \<Rightarrow> py_error + seq_index" where
  "prepare_data text = prepare_lines (split (CHR 0x0A) text) []"

subsection \<open>The constructor\<close>

text \<open>\<open>__init__(self, f_dim, l_dim)\<close>; \<open>np.float32\<close> is recorded by its name, and
  \<open>sorted(self.data)\<close> is the sorted list of the dictionary's keys.\<close>

definition MyMultiWorkerDataSource :: "string \<Rightarrow> int \<Rightarrow> int \<Rightarrow> py_error + source" where
  "MyMultiWorkerDataSource sample_data f l =
     (case prepare_data sample_data of
        Inl e \<Rightarrow> Inl e
      | Inr d \<Rightarrow> Inr \<lparr>f_dim = f, l_dim = l, data = d,
                      fsi = \<lparr>si_name = ''features'', si_stream_id = 0, si_storage_format = ''sparse'',
                             si_dtype = ''float32'', si_shape = [f]\<rparr>,
                      lsi = \<lparr>si_name = ''labels'', si_stream_id = 1, si_storage_format = ''dense'',
                             si_dtype = ''float32'', si_shape = [l]\<rparr>,
                      sequences = sort (map fst d),
                      next_seq_idx = 0\<rparr>)"

subsection \<open>\<open>_prepare_nextbatch\<close>\<close>

text \<open>The local variables of \<open>_prepare_nextbatch\<close>, which are also the tuple it returns.\<close>

record nextbatch =
  features :: "int list list"
  f_sample_count :: int
  labels :: "string list list list"
  l_sample_count :: int
  sweep_end :: bool

text \<open>How one pass through the body of the \<open>while\<close> loop ends: at the end of the body
  or at \<open>continue\<close> (both go back to the loop test), at \<open>break\<close>, or in an exception.\<close>

datatype flow = Again nextbatch source | Break nextbatch source | Raise py_error source

text \<open>The expression \<open>self.sequences[self.sequences[self.next_seq_idx]]\<close>: the list is
  indexed twice, as the source does, and either read may raise.\<close>

definition seq_id_at :: "source \<Rightarrow> py_error + int" where
  "seq_id_at self =
     (case getitem (sequences self) (next_seq_idx self) of
        Inl e \<Rightarrow> Inl e
      | Inr i \<Rightarrow> getitem (sequences self) i)"

text \<open>The first statement of the loop body: at the end of the list, set \<open>sweep_end\<close> and
  go back to position 0.\<close>

definition sweep_wrap :: "nextbatch \<Rightarrow> source \<Rightarrow> nextbatch \<times> source" where
  "sweep_wrap b self =
     (if next_seq_idx self = int (length (sequences self))
      then (b\<lparr>sweep_end := True\<rparr>, self\<lparr>next_seq_idx := 0\<rparr>)
      else (b, self))"

text \<open>
  The body of the loop. \<open>continue\<close> leaves the locals and the instance as they are
  after the wrap test, in particular \<open>next_seq_idx\<close>.
\<close>

definition loop_body :: "int \<Rightarrow> int \<Rightarrow> int \<Rightarrow> nextbatch \<Rightarrow> source \<Rightarrow> flow" where
  "loop_body num_samples number_of_workers worker_rank b0 self0 =
     (let (b, self) = sweep_wrap b0 self0
      in case seq_id_at self of
           Inl e \<Rightarrow> Raise e self
         | Inr seq_id \<Rightarrow>
        (case py_mod seq_id number_of_workers of
           Inl e \<Rightarrow> Raise e self
         | Inr r \<Rightarrow>
             if r \<noteq> worker_rank then Again b self
             else
        (case map_of (data self) seq_id of
           None \<Rightarrow> Raise KeyError self
         | Some entry \<Rightarrow>
        (let feature_data = seq_features entry in
         case seq_labels entry of
           None \<Rightarrow> Raise KeyError self
         | Some label_data \<Rightarrow>
             if (truthy (features b) \<or> truthy (labels b)) \<and>
                max (f_sample_count b + int (length feature_data))
                    (l_sample_count b + int (length label_data)) > num_samples
             then Break b self
             else Again
                    (b\<lparr>f_sample_count := f_sample_count b + int (length feature_data),
                       features := features b @ [feature_data],
                       l_sample_count := l_sample_count b + int (length label_data),
                       labels := labels b @ [label_data]\<rparr>)
                    (self\<lparr>next_seq_idx := next_seq_idx self + 1\<rparr>)))))"

text \<open>The \<open>while\<close> loop. It has no bound on its iterations, so it is a partial function:
  \<open>None\<close> is a loop that never ends.\<close>

partial_function (option) while_loop ::
  "int \<Rightarrow> int \<Rightarrow> int \<Rightarrow> nextbatch \<Rightarrow> source \<Rightarrow> (py_error \<times> source + nextbatch \<times> source) option"
where
  "while_loop num_samples number_of_workers worker_rank b self =
     (if max (f_sample_count b) (l_sample_count b) < num_samples
      then (case loop_body num_samples number_of_workers worker_rank b self of
              Again b' self' \<Rightarrow> while_loop num_samples number_of_workers worker_rank b' self'
            | Break b' self' \<Rightarrow> Some (Inr (b', self'))
            | Raise e self' \<Rightarrow> Some (Inl (e, self')))
      else Some (Inr (b, self)))"

declare while_loop.simps [code]

definition prepare_nextbatch ::
  "int \<Rightarrow> int \<Rightarrow> int \<Rightarrow> source \<Rightarrow> (py_error \<times> source + nextbatch \<times> source) option"
where
  "prepare_nextbatch num_samples number_of_workers worker_rank self =
     while_loop num_samples number_of_workers worker_rank
       \<lparr>features = [], f_sample_count = 0, labels = [], l_sample_count = 0, sweep_end = False\<rparr>
       self"

subsection \<open>The four methods of the interface\<close>

definition stream_infos :: "source \<Rightarrow> stream_information list" where
  "stream_infos self = [fsi self, lsi self]"

text \<open>
  The values handed to the toolkit. \<open>C.Value.one_hot\<close> and \<open>C.Value\<close> belong to the
  toolkit: each is kept as a constructor over the arguments the class passes, and
  \<open>MinibatchData(value, num_sequences, num_samples, sweep_end)\<close> as a record.
\<close>

datatype cntk_value =
    One_hot "int list list" int string
  | Dense "string list list list" string

record minibatch_data =
  mb_value :: cntk_value
  mb_num_sequences :: int
  mb_num_samples :: int
  mb_sweep_end :: bool

text \<open>\<open>next_minibatch\<close> returns a dictionary with the two stream descriptors as keys,
  here the list of its two items. Between the batch and the dictionary stands
  \<open>np.asarray(labels, dtype=np.float32)\<close>, which raises \<open>ValueError\<close> when the label
  arrays of the batch are not of one shape; the cursor has moved by then.\<close>

definition next_minibatch ::
  "int \<Rightarrow> int \<Rightarrow> int \<Rightarrow> string \<Rightarrow> source \<Rightarrow>
     (py_error \<times> source + (stream_information \<times> minibatch_data) list \<times> source) option"
where
  "next_minibatch num_samples number_of_workers worker_rank device self =
     (case prepare_nextbatch num_samples number_of_workers worker_rank self of
        None \<Rightarrow> None
      | Some (Inl err) \<Rightarrow> Some (Inl err)
      | Some (Inr (b, self')) \<Rightarrow>
          (let feature_data = One_hot (features b) (f_dim self') device
           in if stackable (labels b)
              then (let label_data = Dense (labels b) device;
                        num_seq = int (length (features b))
                    in Some (Inr ([(fsi self', \<lparr>mb_value = feature_data, mb_num_sequences = num_seq,
                                                mb_num_samples = f_sample_count b,
                                                mb_sweep_end = sweep_end b\<rparr>),
                                   (lsi self', \<lparr>mb_value = label_data, mb_num_sequences = num_seq,
                                                mb_num_samples = l_sample_count b,
                                                mb_sweep_end = sweep_end b\<rparr>)],
                                  self')))
              else Some (Inl (ValueError, self'))))"

text \<open>A checkpoint state is a dictionary from names to values.\<close>

type_synonym checkpoint = "string \<rightharpoonup> int"

definition get_checkpoint_state :: "source \<Rightarrow> checkpoint \<times> source" where
  "get_checkpoint_state self = ([''next_seq_idx'' \<mapsto> next_seq_idx self], self)"

definition restore_from_checkpoint :: "checkpoint \<Rightarrow> source \<Rightarrow> py_error \<times> source + source" where
  "restore_from_checkpoint state self =
     (case state ''next_seq_idx'' of
        None \<Rightarrow> Inl (KeyError, self)
      | Some v \<Rightarrow> Inr (self\<lparr>next_seq_idx := v\<rparr>))"

subsection \<open>The data set of the notebook\<close>

definition sample_data :: string where
  "sample_data = concat (map (\<lambda>line. line @ [CHR 0x0A])
     [''0      |x 560:1        |y 1 0 0 0 0'',
      ''0   |x 0:1'',
      ''0   |x 0:1'',
      ''1   |x 560:1        |y 0 1 0 0 0'',
      ''1   |x 0:1'',
      ''1   |x 0:1'',
      ''1   |x 424:1'',
      ''2   |x 160:1        |y 0 0 1 0 0'',
      ''2   |x 5:1'',
      ''2   |x 6:1'',
      ''3   |x 460:1        |y 0 0 0 1 0'',
      ''3   |x 3:1'',
      ''3   |x 3:1'',
      ''3   |x 425:1''])"

text \<open>The instance of the notebook, \<open>mbs = MyMultiWorkerDataSource(input_dim,
  num_output_classes)\<close> with \<open>input_dim = 1000\<close> and \<open>num_output_classes = 5\<close>, written
  out; \<open>mbs_constructed\<close> below shows that the constructor builds it.\<close>

definition mbs :: source where
  "mbs = \<lparr>f_dim = 1000, l_dim = 5,
     data =
       [(0, \<lparr>seq_features = [560, 0, 0], seq_labels = Some [[''1'', ''0'', ''0'', ''0'', ''0'']]\<rparr>),
        (1, \<lparr>seq_features = [560, 0, 0, 424], seq_labels = Some [[''0'', ''1'', ''0'', ''0'', ''0'']]\<rparr>),
        (2, \<lparr>seq_features = [160, 5, 6], seq_labels = Some [[''0'', ''0'', ''1'', ''0'', ''0'']]\<rparr>),
        (3, \<lparr>seq_features = [460, 3, 3, 425], seq_labels = Some [[''0'', ''0'', ''0'', ''1'', ''0'']]\<rparr>)],
     fsi = \<lparr>si_name = ''features'', si_stream_id = 0, si_storage_format = ''sparse'',
            si_dtype = ''float32'', si_shape = [1000]\<rparr>,
     lsi = \<lparr>si_name = ''labels'', si_stream_id = 1, si_storage_format = ''dense'',
            si_dtype = ''float32'', si_shape = [5]\<rparr>,
     sequences = [0, 1, 2, 3],
     next_seq_idx = 0\<rparr>"

subsection \<open>Vocabulary of the properties\<close>

text \<open>Two instances that differ at most in \<open>next_seq_idx\<close>.\<close>

definition unchanged_but_cursor :: "source \<Rightarrow> source \<Rightarrow> bool" where
  "unchanged_but_cursor self self' =
     (data self' = data self \<and> sequences self' = sequences self \<and>
      fsi self' = fsi self \<and> lsi self' = lsi self \<and>
      f_dim self' = f_dim self \<and> l_dim self' = l_dim self)"

text \<open>The feature list that \<open>self.data\<close> holds for an identifier (empty when it holds
  none); a batch does not carry identifiers, so a returned sequence is recognised by it.\<close>

definition features_of :: "source \<Rightarrow> int \<Rightarrow> int list" where
  "features_of self i = (case map_of (data self) i of None \<Rightarrow> [] | Some e \<Rightarrow> seq_features e)"

text \<open>The label arrays that a dictionary holds, in its order.\<close>

definition label_arrays :: "seq_index \<Rightarrow> string list list list" where
  "label_arrays d = List.map_filter (\<lambda>(i, e). seq_labels e) d"

text \<open>
  The data sets on which a single worker meets no exception: there is a sequence, the
  sorted identifiers are \<open>0, \<dots>, n - 1\<close>, every sequence has a label array, and the
  label arrays are all of one shape. The notebook's data set is one.
\<close>

definition dense_labelled_index :: "seq_index \<Rightarrow> bool" where
  "dense_labelled_index d =
     (truthy d \<and> sort (map fst d) = map int [0..<length d] \<and>
      list_all (\<lambda>(i, e). seq_labels e \<noteq> None) d \<and>
      stackable (label_arrays d))"

text \<open>
  What follows from that for an instance the constructor has built, whatever its cursor,
  and is what the loop invariant needs: \<open>sequences\<close> is \<open>0, \<dots>, n - 1\<close>, every identifier
  has an entry with a label array and at least one sample, and the label arrays stack.
\<close>

definition dense_labelled :: "source \<Rightarrow> bool" where
  "dense_labelled self =
     (truthy (sequences self) \<and>
      sequences self = map int [0..<length (sequences self)] \<and>
      list_all (\<lambda>i. case map_of (data self) i of
                        None \<Rightarrow> False
                      | Some e \<Rightarrow> (case seq_labels e of
                                    None \<Rightarrow> False
                                  | Some ld \<Rightarrow> truthy (seq_features e) \<or> truthy ld))
        (sequences self) \<and>
      stackable (label_arrays (data self)))"

text \<open>
  The endless walk of one worker over the sorted identifiers goes round and round: its
  position \<open>k\<close> (counted from 0) is at the identifier \<open>k mod n\<close>. \<open>visited self i j\<close>
  are the feature lists of the positions \<open>i, \<dots>, j - 1\<close> of that walk.
\<close>

definition visited :: "source \<Rightarrow> nat \<Rightarrow> nat \<Rightarrow> int list list" where
  "visited self i j =
     map (\<lambda>k. features_of self (int (k mod length (sequences self)))) [i..<j]"

text \<open>
  The invariant of the loop for one worker on such an instance, for a call that began at
  position \<open>c0\<close>: the batch holds the positions \<open>c0, \<dots>, v - 1\<close> of the walk, features
  and labels were appended together, the cursor \<open>cur\<close> is the position \<open>v\<close> up to whole
  rounds, and \<open>sweep_end\<close> is unset only before the first wrap.
\<close>

definition walk_inv :: "source \<Rightarrow> nat \<Rightarrow> nextbatch \<Rightarrow> int \<Rightarrow> nat \<Rightarrow> bool" where
  "walk_inv self c0 b cur v =
     (features b = visited self c0 v \<and> truthy (features b) = truthy (labels b) \<and> c0 \<le> v \<and>
      0 \<le> cur \<and> cur \<le> int (length (sequences self)) \<and>
      nat cur mod length (sequences self) = v mod length (sequences self) \<and>
      (if sweep_end b then length (sequences self) \<le> v else cur = int v))"

text \<open>What a training loop reads off a returned minibatch: the sequences of its first
  stream (the features) and the sweep flag.\<close>

definition minibatch_sequences :: "(stream_information \<times> minibatch_data) list \<Rightarrow> int list list" where
  "minibatch_sequences res =
     (case res of
        [] \<Rightarrow> []
      | (si, m) # rest \<Rightarrow> (case mb_value m of One_hot fs k dev \<Rightarrow> fs | Dense ls dev \<Rightarrow> []))"

definition minibatch_sweep_end :: "(stream_information \<times> minibatch_data) list \<Rightarrow> bool" where
  "minibatch_sweep_end res = (case res of [] \<Rightarrow> False | (si, m) # rest \<Rightarrow> mb_sweep_end m)"

text \<open>
  A caller that asks one worker (count 1, rank 0) for minibatches until one comes back
  with the sweep flag set, and collects the sequences it was given, in order; \<open>seen\<close>
  are those of the calls made so far. Nothing bounds the number of calls beforehand.
\<close>

partial_function (option) calls_until_sweep_end ::
  "int \<Rightarrow> string \<Rightarrow> int list list \<Rightarrow> source \<Rightarrow> (py_error \<times> source + int list list \<times> source) option"
where
  "calls_until_sweep_end num_samples device seen self =
     (case next_minibatch num_samples 1 0 device self of
        None \<Rightarrow> None
      | Some (Inl err) \<Rightarrow> Some (Inl err)
      | Some (Inr (res, self')) \<Rightarrow>
          if minibatch_sweep_end res
          then Some (Inr (seen @ minibatch_sequences res, self'))
          else calls_until_sweep_end num_samples device (seen @ minibatch_sequences res) self')"

declare calls_until_sweep_end.simps [code]

text \<open>A data set of two sequences of which only the first has a label field, and the
  instance the constructor builds from it (\<open>half_labelled_constructed\<close> below).\<close>

definition one_label_data :: string where
  "one_label_data = ''0 |x 7:1 |y 1 0'' @ [CHR 0x0A] @ ''1 |x 8:1'' @ [CHR 0x0A]"

definition half_labelled :: source where
  "half_labelled = \<lparr>f_dim = 1000, l_dim = 2,
     data =
       [(0, \<lparr>seq_features = [7], seq_labels = Some [[''1'', ''0'']]\<rparr>),
        (1, \<lparr>seq_features = [8], seq_labels = None\<rparr>)],
     fsi = \<lparr>si_name = ''features'', si_stream_id = 0, si_storage_format = ''sparse'',
            si_dtype = ''float32'', si_shape = [1000]\<rparr>,
     lsi = \<lparr>si_name = ''labels'', si_stream_id = 1, si_storage_format = ''dense'',
            si_dtype = ''float32'', si_shape = [2]\<rparr>,
     sequences = [0, 1],
     next_seq_idx = 0\<rparr>"

text \<open>A data set of one sequence without a label field, and its instance
  (\<open>unlabelled_constructed\<close> below).\<close>

definition no_label_data :: string where
  "no_label_data = ''0 |x 7:1'' @ [CHR 0x0A]"

definition unlabelled :: source where
  "unlabelled = \<lparr>f_dim = 1000, l_dim = 2,
     data = [(0, \<lparr>seq_features = [7], seq_labels = None\<rparr>)],
     fsi = \<lparr>si_name = ''features'', si_stream_id = 0, si_storage_format = ''sparse'',
            si_dtype = ''float32'', si_shape = [1000]\<rparr>,
     lsi = \<lparr>si_name = ''labels'', si_stream_id = 1, si_storage_format = ''dense'',
            si_dtype = ''float32'', si_shape = [2]\<rparr>,
     sequences = [0],
     next_seq_idx = 0\<rparr>"

section \<open>Properties\<close>

subsection \<open>The example instance\<close>

lemma mbs_constructed: "MyMultiWorkerDataSource sample_data 1000 5 = Inr mbs"
  by code_simp

lemma sample_index: "prepare_data sample_data = Inr (data mbs)"
  by code_simp

lemma half_labelled_constructed: "MyMultiWorkerDataSource one_label_data 1000 2 = Inr half_labelled"
  by code_simp

lemma unlabelled_constructed: "MyMultiWorkerDataSource no_label_data 1000 2 = Inr unlabelled"
  by code_simp

subsection \<open>One turn of the loop\<close>

lemma while_loop_exit:
  "\<not> max (f_sample_count b) (l_sample_count b) < n \<Longrightarrow>
   while_loop n W r b self = Some (Inr (b, self))"
  by (subst while_loop.simps) auto

lemma while_loop_again:
  "max (f_sample_count b) (l_sample_count b) < n \<Longrightarrow> loop_body n W r b self = Again b' self' \<Longrightarrow>
   while_loop n W r b self = while_loop n W r b' self'"
  by (subst while_loop.simps) simp

lemma while_loop_break:
  "max (f_sample_count b) (l_sample_count b) < n \<Longrightarrow> loop_body n W r b self = Break b' self' \<Longrightarrow>
   while_loop n W r b self = Some (Inr (b', self'))"
  by (subst while_loop.simps) simp

lemma while_loop_raise:
  "max (f_sample_count b) (l_sample_count b) < n \<Longrightarrow> loop_body n W r b self = Raise e self' \<Longrightarrow>
   while_loop n W r b self = Some (Inl (e, self'))"
  by (subst while_loop.simps) simp

text \<open>A turn that ends where it began is repeated for ever: the loop has no result.\<close>

lemma while_loop_not_stuck:
  "while_loop n W r b self = Some y \<Longrightarrow>
   \<not> (max (f_sample_count b) (l_sample_count b) < n \<and> loop_body n W r b self = Again b self)"
proof (induction rule: while_loop.raw_induct[rotated, consumes 1])
  case (1 loop n W r b self y)
  show ?case
  proof
    assume h: "max (f_sample_count b) (l_sample_count b) < n \<and> loop_body n W r b self = Again b self"
    with 1(2) have "loop n W r b self = Some y" by simp
    from 1(1)[OF this] h show False by blast
  qed
qed

lemma while_loop_stuck:
  assumes "max (f_sample_count b) (l_sample_count b) < n"
    and "loop_body n W r b self = Again b self"
  shows "while_loop n W r b self = None"
  using while_loop_not_stuck[of n W r b self] assms
  by (cases "while_loop n W r b self") auto

subsection \<open>Sequences of other workers\<close>

lemma sweep_wrap_idem:
  assumes w: "sweep_wrap b self = (b1, self1)" and s: "seq_id_at self1 = Inr seq_id"
  shows "sweep_wrap b1 self1 = (b1, self1)"
proof (cases "next_seq_idx self = int (length (sequences self))")
  case True
  then have e: "self1 = self\<lparr>next_seq_idx := 0\<rparr>"
    using w by (simp add: sweep_wrap_def)
  have "sequences self \<noteq> []"
  proof
    assume "sequences self = []"
    then have "seq_id_at self1 = Inl IndexError"
      using e by (simp add: seq_id_at_def getitem_def)
    with s show False by simp
  qed
  then have "next_seq_idx self1 \<noteq> int (length (sequences self1))"
    using e by simp
  then show ?thesis by (simp add: sweep_wrap_def)
next
  case False
  then have "b1 = b" "self1 = self"
    using w by (simp_all add: sweep_wrap_def)
  with False show ?thesis by (simp add: sweep_wrap_def)
qed

lemma loop_body_continue:
  assumes "sweep_wrap b self = (b1, self1)" and "seq_id_at self1 = Inr seq_id"
    and "py_mod seq_id W = Inr m" and "m \<noteq> r"
  shows "loop_body n W r b self = Again b1 self1"
  using assms by (simp add: loop_body_def)

text \<open>Whenever the walk stands at a sequence of another worker and the loop test is
  true, the turn ends in \<open>continue\<close> where the wrap test left it, and it is for ever.\<close>

lemma other_worker_never_passed:
  assumes c: "max (f_sample_count b) (l_sample_count b) < n"
    and w: "sweep_wrap b self = (b1, self1)" and s: "seq_id_at self1 = Inr seq_id"
    and m: "py_mod seq_id W = Inr m" "m \<noteq> r"
  shows "while_loop n W r b self = None"
proof -
  have "f_sample_count b1 = f_sample_count b" "l_sample_count b1 = l_sample_count b"
    using w by (auto simp: sweep_wrap_def split: if_splits)
  with c have c1: "max (f_sample_count b1) (l_sample_count b1) < n"
    by simp
  have "while_loop n W r b self = while_loop n W r b1 self1"
    using c loop_body_continue[OF w s m] by (rule while_loop_again)
  also have "\<dots> = None"
    using c1 loop_body_continue[OF sweep_wrap_idem[OF w s] s m] by (rule while_loop_stuck)
  finally show ?thesis .
qed

lemma mbs_worker1_first_turn:
  "loop_body 7 2 1
     \<lparr>features = [], f_sample_count = 0, labels = [], l_sample_count = 0, sweep_end = False\<rparr> mbs
   = Again
     \<lparr>features = [], f_sample_count = 0, labels = [], l_sample_count = 0, sweep_end = False\<rparr> mbs"
  by (simp add: loop_body_def sweep_wrap_def seq_id_at_def mbs_def getitem_def py_mod_def truthy_def)

lemma mbs_worker1_blocked: "prepare_nextbatch 7 2 1 mbs = None"
  unfolding prepare_nextbatch_def by (rule while_loop_stuck[OF _ mbs_worker1_first_turn]) simp

lemma mbs_worker0_first_turn:
  "loop_body 7 2 0
     \<lparr>features = [], f_sample_count = 0, labels = [], l_sample_count = 0, sweep_end = False\<rparr> mbs
   = Again
     \<lparr>features = [[560, 0, 0]], f_sample_count = 3, labels = [[[''1'', ''0'', ''0'', ''0'', ''0'']]],
      l_sample_count = 1, sweep_end = False\<rparr> (mbs\<lparr>next_seq_idx := 1\<rparr>)"
  by (simp add: loop_body_def sweep_wrap_def seq_id_at_def mbs_def getitem_def py_mod_def truthy_def Let_def)

lemma mbs_worker0_second_turn:
  "loop_body 7 2 0
     \<lparr>features = [[560, 0, 0]], f_sample_count = 3, labels = [[[''1'', ''0'', ''0'', ''0'', ''0'']]],
      l_sample_count = 1, sweep_end = False\<rparr> (mbs\<lparr>next_seq_idx := 1\<rparr>)
   = Again
     \<lparr>features = [[560, 0, 0]], f_sample_count = 3, labels = [[[''1'', ''0'', ''0'', ''0'', ''0'']]],
      l_sample_count = 1, sweep_end = False\<rparr> (mbs\<lparr>next_seq_idx := 1\<rparr>)"
  by (simp add: loop_body_def sweep_wrap_def seq_id_at_def mbs_def getitem_def py_mod_def truthy_def Let_def)

lemma mbs_worker0_blocked: "prepare_nextbatch 7 2 0 mbs = None"
proof -
  have "prepare_nextbatch 7 2 0 mbs = while_loop 7 2 0
     \<lparr>features = [[560, 0, 0]], f_sample_count = 3, labels = [[[''1'', ''0'', ''0'', ''0'', ''0'']]],
      l_sample_count = 1, sweep_end = False\<rparr> (mbs\<lparr>next_seq_idx := 1\<rparr>)"
    unfolding prepare_nextbatch_def by (rule while_loop_again[OF _ mbs_worker0_first_turn]) simp
  also have "\<dots> = None"
    by (rule while_loop_stuck[OF _ mbs_worker0_second_turn]) simp
  finally show ?thesis .
qed

text \<open>
  Claim C1 says that a sequence of another worker is skipped and that the cursor moves
  past it. The code does not do that. On the notebook's data with two workers, worker 1
  asks for 7 samples at cursor 0: the sequence read there is 0, and \<open>0 % 2\<close> is 0, not 1.
  The loop body ends in \<open>continue\<close> with the locals and \<open>next_seq_idx\<close> exactly as
  they were, so the next turn is the same turn and the call never returns
  (\<open>other_worker_never_passed\<close> is the general fact).
\<close>

theorem other_workers_sequence_blocks:
  "seq_id_at mbs = Inr 0 \<and> py_mod 0 2 = Inr 0 \<and>
   loop_body 7 2 1
     \<lparr>features = [], f_sample_count = 0, labels = [], l_sample_count = 0, sweep_end = False\<rparr> mbs
   = Again
     \<lparr>features = [], f_sample_count = 0, labels = [], l_sample_count = 0, sweep_end = False\<rparr> mbs \<and>
   prepare_nextbatch 7 2 1 mbs = None"
proof -
  have "seq_id_at mbs = Inr 0"
    by (simp add: seq_id_at_def mbs_def getitem_def)
  with mbs_worker1_first_turn mbs_worker1_blocked show ?thesis
    by (simp add: py_mod_def)
qed

text \<open>
  Claim C2 says that every call with a positive request, a rank below the worker count
  and a non-empty index returns a batch. With two workers on the notebook's data neither
  rank is served: rank 1 is stopped at sequence 0 (see above), rank 0 takes sequence 0 and
  is stopped at sequence 1. Both calls run for ever; it is the missing cursor step of
  claim C1 again.
\<close>

theorem two_workers_never_served:
  "(0::int) < 7 \<and> (0::int) \<le> 1 \<and> (1::int) < 2 \<and> truthy (data mbs) \<and>
   next_minibatch 7 2 1 device mbs = None \<and> next_minibatch 7 2 0 device mbs = None"
  by (simp add: next_minibatch_def mbs_worker1_blocked mbs_worker0_blocked) (simp add: mbs_def truthy_def)

subsection \<open>The first minibatch of the notebook's data\<close>

text \<open>
  Claim C6: on the four sequences of the notebook with label dimension 5, one worker
  (count 1, rank 0) and 7 requested samples, the first \<open>next_minibatch\<close> after
  construction returns the feature lists of sequences 0 and 1, two sequences with
  3 + 4 = 7 feature samples (and 2 label samples), the sweep flag is false, and the
  cursor is left at 2. The feature dimension \<open>F\<close> and the device are arbitrary.
\<close>

theorem first_minibatch_of_sample_data:
  "\<exists>self. MyMultiWorkerDataSource sample_data F 5 = Inr self \<and> next_seq_idx self = 0 \<and>
     map (features_of self) [0, 1] = [[560, 0, 0], [560, 0, 0, 424]] \<and>
     next_minibatch 7 1 0 device self =
       Some (Inr ([(fsi self, \<lparr>mb_value = One_hot [[560, 0, 0], [560, 0, 0, 424]] F device,
                               mb_num_sequences = 2, mb_num_samples = 7, mb_sweep_end = False\<rparr>),
                   (lsi self, \<lparr>mb_value = Dense [[[''1'', ''0'', ''0'', ''0'', ''0'']],
                                                  [[''0'', ''1'', ''0'', ''0'', ''0'']]] device,
                               mb_num_sequences = 2, mb_num_samples = 2, mb_sweep_end = False\<rparr>)],
                  self\<lparr>next_seq_idx := 2\<rparr>))"
  apply (simp add: MyMultiWorkerDataSource_def sample_index)
  apply (simp add: mbs_def next_minibatch_def prepare_nextbatch_def while_loop.simps loop_body_def
      sweep_wrap_def seq_id_at_def getitem_def py_mod_def Let_def truthy_def features_of_def
      stackable_def)
  done

subsection \<open>Checkpoints\<close>

text \<open>
  Claim C8: \<open>get_checkpoint_state\<close> returns the dictionary with the one entry
  \<open>'next_seq_idx'\<close>, the current cursor, and leaves the instance as it is; restoring
  that dictionary gives the same instance back, so the next \<open>next_minibatch\<close> (any
  arguments) behaves as if nothing had been captured or restored.
\<close>

theorem checkpoint_round_trip:
  "fst (get_checkpoint_state self) = [''next_seq_idx'' \<mapsto> next_seq_idx self] \<and>
   snd (get_checkpoint_state self) = self \<and>
   restore_from_checkpoint (fst (get_checkpoint_state self)) (snd (get_checkpoint_state self))
     = Inr self \<and>
   (case restore_from_checkpoint (fst (get_checkpoint_state self)) (snd (get_checkpoint_state self)) of
      Inl err \<Rightarrow> False
    | Inr self' \<Rightarrow> next_minibatch num_samples number_of_workers worker_rank device self'
                  = next_minibatch num_samples number_of_workers worker_rank device self)"
  by (simp add: get_checkpoint_state_def restore_from_checkpoint_def)

lemma getitem_out_of_range:
  "int (length xs) \<le> i \<or> i < - int (length xs) \<Longrightarrow> getitem xs i = Inl IndexError"
  by (auto simp: getitem_def)

lemma sweep_wrap_inside:
  "next_seq_idx self \<noteq> int (length (sequences self)) \<Longrightarrow> sweep_wrap b self = (b, self)"
  by (simp add: sweep_wrap_def)

lemma loop_body_raise_index:
  assumes "next_seq_idx self \<noteq> int (length (sequences self))" and "seq_id_at self = Inl e"
  shows "loop_body n W r b self = Raise e self"
  using assms by (simp add: loop_body_def sweep_wrap_inside)

lemma raise_at_bad_cursor:
  assumes "int (length (sequences self)) < next_seq_idx self \<or>
           next_seq_idx self < - int (length (sequences self))"
    and "0 < n"
  shows "prepare_nextbatch n W r self = Some (Inl (IndexError, self))"
proof -
  have "getitem (sequences self) (next_seq_idx self) = Inl IndexError"
    using assms(1) by (intro getitem_out_of_range) auto
  then have "seq_id_at self = Inl IndexError"
    by (simp add: seq_id_at_def)
  moreover have "next_seq_idx self \<noteq> int (length (sequences self))"
    using assms(1) by auto
  ultimately have "loop_body n W r
      \<lparr>features = [], f_sample_count = 0, labels = [], l_sample_count = 0, sweep_end = False\<rparr> self
    = Raise IndexError self"
    by (simp add: loop_body_raise_index)
  then show ?thesis
    unfolding prepare_nextbatch_def using assms(2) by (intro while_loop_raise) auto
qed

text \<open>
  Claim C4 says that \<open>restore_from_checkpoint\<close> rejects a cursor outside
  \<open>[0, number_of_sequences]\<close>. It does not: on the notebook's instance (4 sequences) the
  snapshot \<open>{'next_seq_idx': 99}\<close> is accepted and the cursor becomes 99.
\<close>

theorem restore_out_of_range_counterexample:
  "int (length (sequences mbs)) < 99 \<and>
   restore_from_checkpoint [''next_seq_idx'' \<mapsto> 99] mbs = Inr (mbs\<lparr>next_seq_idx := 99\<rparr>) \<and>
   next_seq_idx (mbs\<lparr>next_seq_idx := 99\<rparr>) \<noteq> next_seq_idx mbs"
  by (simp add: restore_from_checkpoint_def mbs_def)

text \<open>
  Claim C4 as amended: \<open>restore_from_checkpoint\<close> has no range check. Whatever value
  the snapshot holds under \<open>'next_seq_idx'\<close> becomes the cursor; the only failure is a
  snapshot without that key (\<open>KeyError\<close>), and it leaves the instance unchanged. A
  value above the number of sequences or below its negative shows only at the next
  \<open>next_minibatch\<close> with a positive request, which raises \<open>IndexError\<close>.
\<close>

theorem restore_from_checkpoint_unchecked:
  "restore_from_checkpoint (state(''next_seq_idx'' \<mapsto> v)) self = Inr (self\<lparr>next_seq_idx := v\<rparr>) \<and>
   restore_from_checkpoint (state(''next_seq_idx'' := None)) self = Inl (KeyError, self) \<and>
   ((int (length (sequences self)) < v \<or> v < - int (length (sequences self))) \<and> 0 < num_samples \<longrightarrow>
      next_minibatch num_samples number_of_workers worker_rank device (self\<lparr>next_seq_idx := v\<rparr>)
      = Some (Inl (IndexError, self\<lparr>next_seq_idx := v\<rparr>)))"
  using raise_at_bad_cursor[of "self\<lparr>next_seq_idx := v\<rparr>" num_samples number_of_workers worker_rank]
  by (simp add: restore_from_checkpoint_def next_minibatch_def)

theorem restore_from_checkpoint_unchecked_witness:
  "int (length (sequences mbs)) < 99 \<and> (0::int) < 7 \<and>
   restore_from_checkpoint [''next_seq_idx'' \<mapsto> 99] mbs = Inr (mbs\<lparr>next_seq_idx := 99\<rparr>) \<and>
   next_minibatch 7 1 0 ''cpu'' (mbs\<lparr>next_seq_idx := 99\<rparr>)
     = Some (Inl (IndexError, mbs\<lparr>next_seq_idx := 99\<rparr>))"
proof -
  have l: "int (length (sequences mbs)) < 99" by (simp add: mbs_def)
  from restore_from_checkpoint_unchecked[of Map.empty 99 mbs 7 1 0 "''cpu''"] l
  show ?thesis by simp
qed

subsection \<open>The double index\<close>

lemma seq_id_at_dense:
  assumes "sequences self = map int [0..<length (sequences self)]"
    and "0 \<le> next_seq_idx self" and "next_seq_idx self < int (length (sequences self))"
  shows "seq_id_at self = Inr (next_seq_idx self)"
    and "getitem (sequences self) (next_seq_idx self) = Inr (next_seq_idx self)"
proof -
  have "nat (next_seq_idx self) < length (sequences self)"
    using assms(2,3) by simp
  then have "map int [0..<length (sequences self)] ! nat (next_seq_idx self)
             = int (nat (next_seq_idx self))"
    by simp
  moreover have "sequences self ! nat (next_seq_idx self)
             = map int [0..<length (sequences self)] ! nat (next_seq_idx self)"
    by (subst assms(1)) (rule refl)
  ultimately have "sequences self ! nat (next_seq_idx self) = next_seq_idx self"
    using assms(2) by simp
  then have g: "getitem (sequences self) (next_seq_idx self) = Inr (next_seq_idx self)"
    using assms(2,3) by (simp add: getitem_def)
  then show "seq_id_at self = Inr (next_seq_idx self)"
    by (simp add: seq_id_at_def)
  show "getitem (sequences self) (next_seq_idx self) = Inr (next_seq_idx self)"
    by (rule g)
qed

lemma getitem_Inr_nth:
  assumes "getitem xs j = Inr i"
  shows "\<exists>k < length xs. i = xs ! k"
proof -
  from assms consider
    (inside) "0 \<le> j" and "j < int (length xs)" and "i = xs ! nat j"
    | (wrapped) "j < 0" and "- int (length xs) \<le> j" and "i = xs ! nat (int (length xs) + j)"
    by (auto simp: getitem_def split: if_splits)
  then show ?thesis
  proof cases
    case inside
    then have "nat j < length xs" by simp
    with inside(3) show ?thesis by blast
  next
    case wrapped
    then have "nat (int (length xs) + j) < length xs" by simp
    with wrapped(3) show ?thesis by blast
  qed
qed

lemma seq_id_at_dense_any:
  assumes "sequences self = map int [0..<length (sequences self)]"
  shows "seq_id_at self = getitem (sequences self) (next_seq_idx self)"
proof (cases "getitem (sequences self) (next_seq_idx self)")
  case (Inl e)
  then show ?thesis by (simp add: seq_id_at_def)
next
  case (Inr i)
  from getitem_Inr_nth[OF Inr] obtain k where
    k: "k < length (sequences self)" "i = sequences self ! k"
    by blast
  have "sequences self ! k = map int [0..<length (sequences self)] ! k"
    by (subst assms) (rule refl)
  also have "\<dots> = int k"
    using k(1) by simp
  finally have i: "i = int k"
    using k(2) by simp
  then have "getitem (sequences self) i = Inr i"
    using k by (simp add: getitem_def)
  with Inr show ?thesis by (simp add: seq_id_at_def)
qed

text \<open>
  Claim C10: the sequence is chosen by \<open>self.sequences[self.sequences[next_seq_idx]]\<close>.
  When the sorted identifiers are exactly \<open>0, \<dots>, n - 1\<close>, the second read changes
  nothing: the result is that of \<open>self.sequences[next_seq_idx]\<close>, the identifier at the
  cursor (or the same \<open>IndexError\<close>). Otherwise it need not be: with the single
  identifier 5 the second read is out of bounds and \<open>next_minibatch\<close> raises
  \<open>IndexError\<close>; with the identifiers 1 and 2 the cursor 0 stands at identifier 1 but
  sequence 2 is chosen, and a request for one sample returns the features of sequence 2.
\<close>

theorem double_indexing:
  "(sequences self = map int [0..<length (sequences self)] \<longrightarrow>
      seq_id_at self = getitem (sequences self) (next_seq_idx self)) \<and>
   (case MyMultiWorkerDataSource ''5 |x 1:1 |y 1'' 1000 5 of
      Inl err \<Rightarrow> False
    | Inr s \<Rightarrow> sequences s = [5] \<and> getitem (sequences s) (next_seq_idx s) = Inr 5 \<and>
               seq_id_at s = Inl IndexError \<and>
               next_minibatch 7 1 0 ''cpu'' s = Some (Inl (IndexError, s))) \<and>
   (case MyMultiWorkerDataSource (''1 |x 7:1 |y 1 0'' @ [CHR 0x0A] @ ''2 |x 8:1 |y 0 1'') 1000 5 of
      Inl err \<Rightarrow> False
    | Inr s \<Rightarrow> sequences s = [1, 2] \<and> getitem (sequences s) (next_seq_idx s) = Inr 1 \<and>
               seq_id_at s = Inr 2 \<and> features_of s 1 = [7] \<and> features_of s 2 = [8] \<and>
               (case next_minibatch 1 1 0 ''cpu'' s of
                  Some (Inr (res, s')) \<Rightarrow> minibatch_sequences res = [[8]]
                | _ \<Rightarrow> False))"
proof -
  have a: "sequences self = map int [0..<length (sequences self)] \<longrightarrow>
      seq_id_at self = getitem (sequences self) (next_seq_idx self)"
    using seq_id_at_dense_any[of self] by blast
  have b: "(case MyMultiWorkerDataSource ''5 |x 1:1 |y 1'' 1000 5 of
      Inl err \<Rightarrow> False
    | Inr s \<Rightarrow> sequences s = [5] \<and> getitem (sequences s) (next_seq_idx s) = Inr 5 \<and>
               seq_id_at s = Inl IndexError \<and>
               next_minibatch 7 1 0 ''cpu'' s = Some (Inl (IndexError, s)))"
    by code_simp
  have c: "(case MyMultiWorkerDataSource (''1 |x 7:1 |y 1 0'' @ [CHR 0x0A] @ ''2 |x 8:1 |y 0 1'') 1000 5 of
      Inl err \<Rightarrow> False
    | Inr s \<Rightarrow> sequences s = [1, 2] \<and> getitem (sequences s) (next_seq_idx s) = Inr 1 \<and>
               seq_id_at s = Inr 2 \<and> features_of s 1 = [7] \<and> features_of s 2 = [8] \<and>
               (case next_minibatch 1 1 0 ''cpu'' s of
                  Some (Inr (res, s')) \<Rightarrow> minibatch_sequences res = [[8]]
                | _ \<Rightarrow> False))"
    by code_simp
  from a b c show ?thesis by blast
qed

theorem double_indexing_witness:
  "sequences mbs = map int [0..<length (sequences mbs)] \<and>
   seq_id_at (mbs\<lparr>next_seq_idx := 2\<rparr>) = Inr 2 \<and> getitem (sequences mbs) 2 = Inr 2 \<and>
   seq_id_at (mbs\<lparr>next_seq_idx := - 1\<rparr>) = Inr 3 \<and> getitem (sequences mbs) (- 1) = Inr 3 \<and>
   seq_id_at (mbs\<lparr>next_seq_idx := 4\<rparr>) = Inl IndexError \<and> getitem (sequences mbs) 4 = Inl IndexError"
proof -
  have h: "sequences mbs = map int [0..<length (sequences mbs)]"
    by (simp add: mbs_def upt_rec)
  have g: "getitem (sequences mbs) 2 = Inr 2" "getitem (sequences mbs) (- 1) = Inr 3"
    "getitem (sequences mbs) 4 = Inl IndexError"
    by (simp_all add: mbs_def getitem_def)
  have s: "sequences (mbs\<lparr>next_seq_idx := c\<rparr>) = sequences mbs" for c
    by simp
  from double_indexing[of "mbs\<lparr>next_seq_idx := 2\<rparr>"]
    double_indexing[of "mbs\<lparr>next_seq_idx := - 1\<rparr>"]
    double_indexing[of "mbs\<lparr>next_seq_idx := 4\<rparr>"] h g
  show ?thesis unfolding s by simp
qed

subsection \<open>The frame of \<open>next_minibatch\<close>\<close>

lemma unchanged_but_cursor_refl: "unchanged_but_cursor self self"
  by (simp add: unchanged_but_cursor_def)

lemma unchanged_but_cursor_trans:
  "unchanged_but_cursor a b \<Longrightarrow> unchanged_but_cursor b c \<Longrightarrow> unchanged_but_cursor a c"
  by (simp add: unchanged_but_cursor_def)

lemma sweep_wrap_frame: "sweep_wrap b self = (b1, self1) \<Longrightarrow> unchanged_but_cursor self self1"
  by (auto simp: sweep_wrap_def unchanged_but_cursor_def split: if_splits)

lemma loop_body_frame:
  assumes "loop_body n W r b self = Again b' self' \<or> loop_body n W r b self = Break b' self' \<or>
           loop_body n W r b self = Raise e self'"
  shows "unchanged_but_cursor self self'"
proof -
  obtain b1 self1 where w: "sweep_wrap b self = (b1, self1)" by (cases "sweep_wrap b self")
  have u: "unchanged_but_cursor self self1" by (rule sweep_wrap_frame[OF w])
  have "self' = self1 \<or> self' = self1\<lparr>next_seq_idx := next_seq_idx self1 + 1\<rparr>"
    using assms w
    by (simp add: loop_body_def Let_def split: sum.splits option.splits if_splits)
  then show ?thesis using u by (auto simp: unchanged_but_cursor_def)
qed

lemma while_loop_frame:
  "while_loop n W r b self = Some out \<Longrightarrow>
   unchanged_but_cursor self (case out of Inl (e, s) \<Rightarrow> s | Inr (b', s) \<Rightarrow> s)"
proof (induction rule: while_loop.raw_induct[rotated, consumes 1])
  case (1 loop n W r b self out)
  show ?case
  proof (cases "max (f_sample_count b) (l_sample_count b) < n")
    case False
    with 1(2) show ?thesis by (auto simp: unchanged_but_cursor_refl)
  next
    case True
    show ?thesis
    proof (cases "loop_body n W r b self")
      case (Again b' self')
      with True 1(2) have "loop n W r b' self' = Some out" by simp
      from 1(1)[OF this] loop_body_frame[of n W r b self b' self'] Again
      show ?thesis by (blast intro: unchanged_but_cursor_trans)
    next
      case (Break b' self')
      with True 1(2) have "out = Inr (b', self')" by simp
      with loop_body_frame[of n W r b self b' self'] Break show ?thesis by simp
    next
      case (Raise e self')
      with True 1(2) have "out = Inl (e, self')" by simp
      with loop_body_frame[of n W r b self _ self' e] Raise show ?thesis by simp
    qed
  qed
qed

text \<open>
  Claim C9: \<open>next_minibatch\<close> changes nothing of the instance but \<open>next_seq_idx\<close>.
  Whether the call returns a minibatch or raises, the data, the sorted identifiers, the
  two stream descriptors and the two dimensions of the instance it leaves are those it
  found; and so it is after every single turn of the loop, which covers a call that
  does not return.
\<close>

theorem next_minibatch_changes_cursor_only:
  "(next_minibatch n W r device self = Some (Inr (res, self')) \<longrightarrow> unchanged_but_cursor self self') \<and>
   (next_minibatch n W r device self = Some (Inl (e, self')) \<longrightarrow> unchanged_but_cursor self self') \<and>
   (loop_body n W r b self = Again b' self' \<or> loop_body n W r b self = Break b' self' \<or>
    loop_body n W r b self = Raise e self' \<longrightarrow> unchanged_but_cursor self self')"
proof -
  have "unchanged_but_cursor self self'" if "next_minibatch n W r device self = Some (Inr (res, self'))"
  proof -
    from that obtain b' where "prepare_nextbatch n W r self = Some (Inr (b', self'))"
      by (auto simp: next_minibatch_def Let_def split: option.splits sum.splits prod.splits if_splits)
    from while_loop_frame[OF this[unfolded prepare_nextbatch_def]] show ?thesis by simp
  qed
  moreover have "unchanged_but_cursor self self'" if "next_minibatch n W r device self = Some (Inl (e, self'))"
  proof -
    from that consider
      (raised) "prepare_nextbatch n W r self = Some (Inl (e, self'))"
      | (unstackable) b' where "prepare_nextbatch n W r self = Some (Inr (b', self'))"
      by (auto simp: next_minibatch_def Let_def split: option.splits sum.splits prod.splits if_splits)
    then show ?thesis
    proof cases
      case raised
      from while_loop_frame[OF this[unfolded prepare_nextbatch_def]] show ?thesis by simp
    next
      case unstackable
      from while_loop_frame[OF this[unfolded prepare_nextbatch_def]] show ?thesis by simp
    qed
  qed
  ultimately show ?thesis using loop_body_frame[of n W r b self b' self' e] by blast
qed

lemma mbs_first_minibatch:
  "next_minibatch 7 1 0 ''cpu'' mbs =
       Some (Inr ([(fsi mbs, \<lparr>mb_value = One_hot [[560, 0, 0], [560, 0, 0, 424]] 1000 ''cpu'',
                               mb_num_sequences = 2, mb_num_samples = 7, mb_sweep_end = False\<rparr>),
                   (lsi mbs, \<lparr>mb_value = Dense [[[''1'', ''0'', ''0'', ''0'', ''0'']],
                                                  [[''0'', ''1'', ''0'', ''0'', ''0'']]] ''cpu'',
                               mb_num_sequences = 2, mb_num_samples = 2, mb_sweep_end = False\<rparr>)],
                  mbs\<lparr>next_seq_idx := 2\<rparr>))"
  by code_simp

lemma mbs_bad_cursor:
  "next_minibatch 7 1 0 ''cpu'' (mbs\<lparr>next_seq_idx := 99\<rparr>)
     = Some (Inl (IndexError, mbs\<lparr>next_seq_idx := 99\<rparr>))"
  by code_simp

theorem next_minibatch_changes_cursor_only_witness:
  "next_minibatch 7 1 0 ''cpu'' mbs =
       Some (Inr ([(fsi mbs, \<lparr>mb_value = One_hot [[560, 0, 0], [560, 0, 0, 424]] 1000 ''cpu'',
                               mb_num_sequences = 2, mb_num_samples = 7, mb_sweep_end = False\<rparr>),
                   (lsi mbs, \<lparr>mb_value = Dense [[[''1'', ''0'', ''0'', ''0'', ''0'']],
                                                  [[''0'', ''1'', ''0'', ''0'', ''0'']]] ''cpu'',
                               mb_num_sequences = 2, mb_num_samples = 2, mb_sweep_end = False\<rparr>)],
                  mbs\<lparr>next_seq_idx := 2\<rparr>)) \<and>
   unchanged_but_cursor mbs (mbs\<lparr>next_seq_idx := 2\<rparr>) \<and>
   next_seq_idx (mbs\<lparr>next_seq_idx := 2\<rparr>) \<noteq> next_seq_idx mbs \<and>
   next_minibatch 7 1 0 ''cpu'' (mbs\<lparr>next_seq_idx := 99\<rparr>)
     = Some (Inl (IndexError, mbs\<lparr>next_seq_idx := 99\<rparr>)) \<and>
   unchanged_but_cursor (mbs\<lparr>next_seq_idx := 99\<rparr>) (mbs\<lparr>next_seq_idx := 99\<rparr>) \<and>
   loop_body 7 2 0
     \<lparr>features = [], f_sample_count = 0, labels = [], l_sample_count = 0, sweep_end = False\<rparr> mbs
   = Again
     \<lparr>features = [[560, 0, 0]], f_sample_count = 3, labels = [[[''1'', ''0'', ''0'', ''0'', ''0'']]],
      l_sample_count = 1, sweep_end = False\<rparr> (mbs\<lparr>next_seq_idx := 1\<rparr>) \<and>
   unchanged_but_cursor mbs (mbs\<lparr>next_seq_idx := 1\<rparr>)"
proof -
  from next_minibatch_changes_cursor_only[of 7 1 0 "''cpu''" mbs _ "mbs\<lparr>next_seq_idx := 2\<rparr>"]
    mbs_first_minibatch
  have a: "unchanged_but_cursor mbs (mbs\<lparr>next_seq_idx := 2\<rparr>)"
    by simp
  from next_minibatch_changes_cursor_only[of 7 1 0 "''cpu''" "mbs\<lparr>next_seq_idx := 99\<rparr>" _ 
      "mbs\<lparr>next_seq_idx := 99\<rparr>" IndexError]
    mbs_bad_cursor
  have b: "unchanged_but_cursor (mbs\<lparr>next_seq_idx := 99\<rparr>) (mbs\<lparr>next_seq_idx := 99\<rparr>)"
    by simp
  from next_minibatch_changes_cursor_only[of 7 2 0 _ mbs _ "mbs\<lparr>next_seq_idx := 1\<rparr>" _
      "\<lparr>features = [], f_sample_count = 0, labels = [], l_sample_count = 0, sweep_end = False\<rparr>"]
    mbs_worker0_first_turn
  have c: "unchanged_but_cursor mbs (mbs\<lparr>next_seq_idx := 1\<rparr>)"
    by simp
  have "next_seq_idx (mbs\<lparr>next_seq_idx := 2\<rparr>) \<noteq> next_seq_idx mbs"
    by (simp add: mbs_def)
  with a b c mbs_first_minibatch mbs_bad_cursor mbs_worker0_first_turn show ?thesis
    by simp
qed

subsection \<open>Sequences without a label\<close>


lemma loop_body_eligible:
  assumes "sweep_wrap b self = (b1, self1)" and "seq_id_at self1 = Inr seq_id"
    and "py_mod seq_id W = Inr r" and "map_of (data self1) seq_id = Some entry"
  shows "loop_body n W r b self =
     (case seq_labels entry of
        None \<Rightarrow> Raise KeyError self1
      | Some label_data \<Rightarrow>
          if (truthy (features b1) \<or> truthy (labels b1)) \<and>
              n < max (f_sample_count b1 + int (length (seq_features entry)))
                      (l_sample_count b1 + int (length label_data))
          then Break b1 self1
          else Again
                 (b1\<lparr>f_sample_count := f_sample_count b1 + int (length (seq_features entry)),
                     features := features b1 @ [seq_features entry],
                     l_sample_count := l_sample_count b1 + int (length label_data),
                     labels := labels b1 @ [label_data]\<rparr>)
                 (self1\<lparr>next_seq_idx := next_seq_idx self1 + 1\<rparr>))"
  using assms by (simp add: loop_body_def Let_def split: option.splits)

text \<open>
  Claim C5 says that \<open>next_minibatch\<close> succeeds when some sequence has no label record,
  counting zero label samples for it. It does not: of the two sequences of
  \<open>one_label_data\<close> only the first has a label field; a request for 7 samples takes
  sequence 0 and then fails with \<open>KeyError\<close> at sequence 1, the cursor left at 1.
\<close>

theorem unlabelled_sequence_counterexample:
  "MyMultiWorkerDataSource one_label_data 1000 2 = Inr half_labelled \<and>
   map_of (data half_labelled) 1 = Some \<lparr>seq_features = [8], seq_labels = None\<rparr> \<and>
   next_minibatch 7 1 0 ''cpu'' half_labelled = Some (Inl (KeyError, half_labelled\<lparr>next_seq_idx := 1\<rparr>))"
proof -
  have "next_minibatch 7 1 0 ''cpu'' half_labelled = Some (Inl (KeyError, half_labelled\<lparr>next_seq_idx := 1\<rparr>))"
    by code_simp
  moreover have "map_of (data half_labelled) 1 = Some \<lparr>seq_features = [8], seq_labels = None\<rparr>"
    by (simp add: half_labelled_def)
  ultimately show ?thesis using half_labelled_constructed by simp
qed

text \<open>
  Claim C5 as amended. For the sequence the walk has reached, if it is this worker's:
  \<open>self.data[seq_id]['labels']\<close> is read whether or not the key is there. Without a
  label array the turn raises \<open>KeyError\<close>, and so does the call, the instance being as
  the wrap test left it. With a label array, unless the turn ends in \<open>break\<close>, the two
  counts grow separately, \<open>f_sample_count\<close> by the number of features and
  \<open>l_sample_count\<close> by the number of rows of the label array.
\<close>

theorem labels_read_unconditionally:
  "sweep_wrap b self = (b1, self1) \<and> seq_id_at self1 = Inr seq_id \<and>
   py_mod seq_id number_of_workers = Inr worker_rank \<and> map_of (data self1) seq_id = Some entry \<longrightarrow>
     (seq_labels entry = None \<longrightarrow>
        loop_body num_samples number_of_workers worker_rank b self = Raise KeyError self1 \<and>
        (max (f_sample_count b) (l_sample_count b) < num_samples \<longrightarrow>
           while_loop num_samples number_of_workers worker_rank b self = Some (Inl (KeyError, self1)))) \<and>
     (seq_labels entry = Some label_data \<and>
      \<not> ((truthy (features b1) \<or> truthy (labels b1)) \<and>
          num_samples < max (f_sample_count b1 + int (length (seq_features entry)))
                            (l_sample_count b1 + int (length label_data))) \<longrightarrow>
        loop_body num_samples number_of_workers worker_rank b self =
          Again
            (b1\<lparr>f_sample_count := f_sample_count b1 + int (length (seq_features entry)),
                features := features b1 @ [seq_features entry],
                l_sample_count := l_sample_count b1 + int (length label_data),
                labels := labels b1 @ [label_data]\<rparr>)
            (self1\<lparr>next_seq_idx := next_seq_idx self1 + 1\<rparr>))"
proof (intro impI conjI)
  assume h: "sweep_wrap b self = (b1, self1) \<and> seq_id_at self1 = Inr seq_id \<and>
   py_mod seq_id number_of_workers = Inr worker_rank \<and> map_of (data self1) seq_id = Some entry"
  note e = loop_body_eligible[of b self b1 self1 seq_id number_of_workers worker_rank entry num_samples]
  { assume n: "seq_labels entry = None"
    with e h show r: "loop_body num_samples number_of_workers worker_rank b self = Raise KeyError self1"
      by simp
    assume "max (f_sample_count b) (l_sample_count b) < num_samples"
    then show "while_loop num_samples number_of_workers worker_rank b self = Some (Inl (KeyError, self1))"
      using r by (rule while_loop_raise)
  }
  { assume "seq_labels entry = Some label_data \<and>
      \<not> ((truthy (features b1) \<or> truthy (labels b1)) \<and>
          num_samples < max (f_sample_count b1 + int (length (seq_features entry)))
                            (l_sample_count b1 + int (length label_data)))"
    with e h show "loop_body num_samples number_of_workers worker_rank b self =
          Again
            (b1\<lparr>f_sample_count := f_sample_count b1 + int (length (seq_features entry)),
                features := features b1 @ [seq_features entry],
                l_sample_count := l_sample_count b1 + int (length label_data),
                labels := labels b1 @ [label_data]\<rparr>)
            (self1\<lparr>next_seq_idx := next_seq_idx self1 + 1\<rparr>)"
      by auto
  }
qed


theorem labels_read_unconditionally_witness:
  "sweep_wrap \<lparr>features = [], f_sample_count = 0, labels = [], l_sample_count = 0, sweep_end = False\<rparr>
       half_labelled
     = (\<lparr>features = [], f_sample_count = 0, labels = [], l_sample_count = 0, sweep_end = False\<rparr>,
        half_labelled) \<and>
   seq_id_at half_labelled = Inr 0 \<and> py_mod 0 1 = Inr 0 \<and>
   map_of (data half_labelled) 0 = Some \<lparr>seq_features = [7], seq_labels = Some [[''1'', ''0'']]\<rparr> \<and>
   loop_body 7 1 0
       \<lparr>features = [], f_sample_count = 0, labels = [], l_sample_count = 0, sweep_end = False\<rparr>
       half_labelled
     = Again \<lparr>features = [[7]], f_sample_count = 1, labels = [[[''1'', ''0'']]], l_sample_count = 1,
              sweep_end = False\<rparr>
         (half_labelled\<lparr>next_seq_idx := 1\<rparr>) \<and>
   seq_id_at (half_labelled\<lparr>next_seq_idx := 1\<rparr>) = Inr 1 \<and>
   map_of (data half_labelled) 1 = Some \<lparr>seq_features = [8], seq_labels = None\<rparr> \<and>
   while_loop 7 1 0
       \<lparr>features = [[7]], f_sample_count = 1, labels = [[[''1'', ''0'']]], l_sample_count = 1,
        sweep_end = False\<rparr>
       (half_labelled\<lparr>next_seq_idx := 1\<rparr>)
     = Some (Inl (KeyError, half_labelled\<lparr>next_seq_idx := 1\<rparr>))"
proof -
  let ?b0 = "\<lparr>features = [], f_sample_count = 0, labels = [], l_sample_count = 0, sweep_end = False\<rparr>"
  let ?b1 = "\<lparr>features = [[7]], f_sample_count = 1, labels = [[[''1'', ''0'']]], l_sample_count = 1,
              sweep_end = False\<rparr>"
  let ?s1 = "half_labelled\<lparr>next_seq_idx := 1\<rparr>"
  have w0: "sweep_wrap ?b0 half_labelled = (?b0, half_labelled)"
    by (simp add: sweep_wrap_def half_labelled_def)
  have w1: "sweep_wrap ?b1 ?s1 = (?b1, ?s1)"
    by (simp add: sweep_wrap_def half_labelled_def)
  have i0: "seq_id_at half_labelled = Inr 0"
    by (simp add: seq_id_at_def getitem_def half_labelled_def)
  have i1: "seq_id_at ?s1 = Inr 1"
    by (simp add: seq_id_at_def getitem_def half_labelled_def)
  have m: "py_mod 0 1 = Inr 0" "py_mod 1 1 = Inr 0"
    by (simp_all add: py_mod_def)
  have d0: "map_of (data half_labelled) 0 = Some \<lparr>seq_features = [7], seq_labels = Some [[''1'', ''0'']]\<rparr>"
    by (simp add: half_labelled_def)
  have d1: "map_of (data half_labelled) 1 = Some \<lparr>seq_features = [8], seq_labels = None\<rparr>"
    by (simp add: half_labelled_def)
  have d1': "map_of (data ?s1) 1 = Some \<lparr>seq_features = [8], seq_labels = None\<rparr>"
    by (simp add: half_labelled_def)
  have c0: "next_seq_idx half_labelled = 0"
    by (simp add: half_labelled_def)
  from labels_read_unconditionally[of ?b0 half_labelled ?b0 half_labelled 0 1 0
      "\<lparr>seq_features = [7], seq_labels = Some [[''1'', ''0'']]\<rparr>" 7 "[[''1'', ''0'']]"]
    w0 i0 m d0
  have A: "loop_body 7 1 0 ?b0 half_labelled = Again ?b1 ?s1"
    by (simp add: truthy_def c0)
  from labels_read_unconditionally[of ?b1 ?s1 ?b1 ?s1 1 1 0
      "\<lparr>seq_features = [8], seq_labels = None\<rparr>" 7]
    w1 i1 m d1'
  have B: "while_loop 7 1 0 ?b1 ?s1 = Some (Inl (KeyError, ?s1))"
    by simp
  from w0 i0 m d0 A i1 d1 B show ?thesis by simp
qed


subsection \<open>One worker on a dense, labelled index\<close>


lemma dense_labelled_cursor [simp]: "dense_labelled (self\<lparr>next_seq_idx := c\<rparr>) = dense_labelled self"
  by (simp add: dense_labelled_def)

lemma visited_cursor [simp]: "visited (self\<lparr>next_seq_idx := c\<rparr>) = visited self"
  by (simp add: visited_def features_of_def fun_eq_iff)

lemma walk_inv_cursor [simp]: "walk_inv (self\<lparr>next_seq_idx := c\<rparr>) = walk_inv self"
  by (simp add: walk_inv_def fun_eq_iff)

lemma unchanged_but_cursor_visited:
  "unchanged_but_cursor self self' \<Longrightarrow> visited self' = visited self"
  by (simp add: unchanged_but_cursor_def visited_def features_of_def fun_eq_iff)

lemma unchanged_but_cursor_walk_inv:
  "unchanged_but_cursor self self' \<Longrightarrow> walk_inv self' = walk_inv self"
  by (simp add: unchanged_but_cursor_def walk_inv_def visited_def features_of_def fun_eq_iff)

lemma visited_snoc:
  "i \<le> j \<Longrightarrow> visited self i (Suc j) = visited self i j @ [features_of self (int (j mod length (sequences self)))]"
  by (simp add: visited_def)

lemma visited_append:
  assumes "i \<le> j" and "j \<le> k"
  shows "visited self i j @ visited self j k = visited self i k"
proof -
  from assms(2) obtain d where k: "k = j + d" by (auto simp: le_iff_add)
  have "[i..<j + d] = [i..<j] @ [j..<j + d]"
    using assms(1) by (rule upt_add_eq_append)
  then show ?thesis
    unfolding visited_def k by simp
qed

lemma dense_entry:
  assumes "dense_labelled self" and "0 \<le> c" and "c < int (length (sequences self))"
  shows "\<exists>e ld. map_of (data self) c = Some e \<and> seq_labels e = Some ld \<and>
           (truthy (seq_features e) \<or> truthy ld)"
proof -
  have "set (sequences self) = set (map int [0..<length (sequences self)])"
    using assms(1) by (simp add: dense_labelled_def)
  also have "\<dots> = int ` {0..<length (sequences self)}"
    by simp
  finally have s: "set (sequences self) = int ` {0..<length (sequences self)}" .
  have "c \<in> int ` {0..<length (sequences self)}"
    using assms(2,3) by (intro image_eqI[where x = "nat c"]) auto
  with s have "c \<in> set (sequences self)"
    by simp
  moreover have "\<forall>i \<in> set (sequences self).
      (case map_of (data self) i of
         None \<Rightarrow> False
       | Some e \<Rightarrow> (case seq_labels e of None \<Rightarrow> False | Some ld \<Rightarrow> truthy (seq_features e) \<or> truthy ld))"
    using assms(1) by (simp add: dense_labelled_def list_all_iff)
  ultimately have "case map_of (data self) c of
         None \<Rightarrow> False
       | Some e \<Rightarrow> (case seq_labels e of None \<Rightarrow> False | Some ld \<Rightarrow> truthy (seq_features e) \<or> truthy ld)"
    by blast
  then show ?thesis
    by (cases "map_of (data self) c"; cases "seq_labels (the (map_of (data self) c))") auto
qed



lemma walk_inv_wrap:
  assumes d: "dense_labelled self" and inv: "walk_inv self c0 b (next_seq_idx self) v"
    and w: "sweep_wrap b self = (b1, self1)"
  shows "walk_inv self c0 b1 (next_seq_idx self1) v"
    and "next_seq_idx self1 = int (v mod length (sequences self))"
    and "features b1 = features b \<and> labels b1 = labels b \<and>
         f_sample_count b1 = f_sample_count b \<and> l_sample_count b1 = l_sample_count b"
    and "self1 = self\<lparr>next_seq_idx := next_seq_idx self1\<rparr>"
proof -
  let ?n = "length (sequences self)"
  have n: "0 < ?n" using d by (simp add: dense_labelled_def truthy_def)
  show "features b1 = features b \<and> labels b1 = labels b \<and>
         f_sample_count b1 = f_sample_count b \<and> l_sample_count b1 = l_sample_count b"
    using w by (auto simp: sweep_wrap_def split: if_splits)
  show "self1 = self\<lparr>next_seq_idx := next_seq_idx self1\<rparr>"
    using w by (auto simp: sweep_wrap_def split: if_splits)
  show "walk_inv self c0 b1 (next_seq_idx self1) v"
  proof (cases "next_seq_idx self = int ?n")
    case True
    then have e: "b1 = b\<lparr>sweep_end := True\<rparr>" "next_seq_idx self1 = 0"
      using w by (auto simp: sweep_wrap_def)
    from inv True have "v mod ?n = 0" by (simp add: walk_inv_def)
    moreover from inv True have "?n \<le> v" by (auto simp: walk_inv_def split: if_splits)
    ultimately show ?thesis using inv e by (auto simp: walk_inv_def)
  next
    case False
    then have "b1 = b" "self1 = self" using w by (auto simp: sweep_wrap_def)
    with inv show ?thesis by simp
  qed
  show "next_seq_idx self1 = int (v mod ?n)"
  proof (cases "next_seq_idx self = int ?n")
    case True
    then have "next_seq_idx self1 = 0" using w by (auto simp: sweep_wrap_def)
    moreover from inv True have "v mod ?n = 0" by (simp add: walk_inv_def)
    ultimately show ?thesis by simp
  next
    case False
    then have s: "self1 = self" using w by (auto simp: sweep_wrap_def)
    from inv False have "nat (next_seq_idx self) < ?n" "0 \<le> next_seq_idx self"
      by (auto simp: walk_inv_def)
    moreover from inv have "nat (next_seq_idx self) mod ?n = v mod ?n" by (simp add: walk_inv_def)
    ultimately show ?thesis using s by simp
  qed
qed

lemma walk_inv_step:
  assumes inv: "walk_inv self c0 b cur v" and c: "cur = int (v mod length (sequences self))"
    and n: "0 < length (sequences self)"
    and fd: "fd = features_of self cur"
  shows "walk_inv self c0
           (b\<lparr>f_sample_count := f, features := features b @ [fd], l_sample_count := l,
              labels := labels b @ [ld]\<rparr>)
           (cur + 1) (Suc v)"
proof -
  let ?n = "length (sequences self)"
  have "v mod ?n < ?n" using n by simp
  then have le: "cur + 1 \<le> int ?n" using c by simp
  have m: "nat (cur + 1) mod ?n = Suc v mod ?n"
    using c by (simp add: nat_add_distrib mod_Suc_eq)
  have "c0 \<le> v" using inv by (simp add: walk_inv_def)
  then have "visited self c0 (Suc v) = visited self c0 v @ [features_of self (int (v mod ?n))]"
    by (rule visited_snoc)
  then have f: "features b @ [fd] = visited self c0 (Suc v)"
    using inv fd c by (simp add: walk_inv_def)
  show ?thesis
    using inv le m f c by (auto simp: walk_inv_def truthy_def split: if_splits)
qed




lemma dense_turn:
  assumes d: "dense_labelled self" and inv: "walk_inv self c0 b (next_seq_idx self) v"
  shows "\<exists>b1 c1 (e::seq_entry) ld.
     walk_inv self c0 b1 c1 v \<and> c1 = int (v mod length (sequences self)) \<and>
     features b1 = features b \<and> labels b1 = labels b \<and>
     f_sample_count b1 = f_sample_count b \<and> l_sample_count b1 = l_sample_count b \<and>
     seq_features e = features_of self c1 \<and> (truthy (seq_features e) \<or> truthy ld) \<and>
     loop_body ns 1 0 b self =
       (if (truthy (features b1) \<or> truthy (labels b1)) \<and>
           ns < max (f_sample_count b1 + int (length (seq_features e)))
                    (l_sample_count b1 + int (length ld))
        then Break b1 (self\<lparr>next_seq_idx := c1\<rparr>)
        else Again
               (b1\<lparr>f_sample_count := f_sample_count b1 + int (length (seq_features e)),
                   features := features b1 @ [seq_features e],
                   l_sample_count := l_sample_count b1 + int (length ld),
                   labels := labels b1 @ [ld]\<rparr>)
               (self\<lparr>next_seq_idx := c1 + 1\<rparr>))"
proof -
  let ?n = "length (sequences self)"
  obtain b1 self1 where w: "sweep_wrap b self = (b1, self1)"
    by (cases "sweep_wrap b self")
  note wi = walk_inv_wrap[OF d inv w]
  define c1 where "c1 = next_seq_idx self1"
  have s1: "self1 = self\<lparr>next_seq_idx := c1\<rparr>"
    using wi(4) by (simp add: c1_def)
  have n: "0 < ?n"
    using d by (simp add: dense_labelled_def truthy_def)
  have c1: "c1 = int (v mod ?n)"
    using wi(2) by (simp add: c1_def)
  then have r: "0 \<le> c1" "c1 < int ?n"
    using n by simp_all
  have "sequences self1 = map int [0..<length (sequences self1)]"
    using d s1 by (simp add: dense_labelled_def)
  moreover have "0 \<le> next_seq_idx self1" "next_seq_idx self1 < int (length (sequences self1))"
    using r s1 by simp_all
  ultimately have "seq_id_at self1 = Inr (next_seq_idx self1)"
    by (rule seq_id_at_dense(1))
  then have sid: "seq_id_at self1 = Inr c1"
    by (simp add: c1_def)
  have pm: "py_mod c1 1 = Inr 0"
    by (simp add: py_mod_def)
  from dense_entry[OF d r] obtain e ld where
    e: "map_of (data self) c1 = Some e" "seq_labels e = Some ld" "truthy (seq_features e) \<or> truthy ld"
    by blast
  have e1: "map_of (data self1) c1 = Some e"
    using e(1) s1 by simp
  have fe: "seq_features e = features_of self c1"
    using e(1) by (simp add: features_of_def)
  have "loop_body ns 1 0 b self =
       (if (truthy (features b1) \<or> truthy (labels b1)) \<and>
           ns < max (f_sample_count b1 + int (length (seq_features e)))
                    (l_sample_count b1 + int (length ld))
        then Break b1 (self\<lparr>next_seq_idx := c1\<rparr>)
        else Again
               (b1\<lparr>f_sample_count := f_sample_count b1 + int (length (seq_features e)),
                   features := features b1 @ [seq_features e],
                   l_sample_count := l_sample_count b1 + int (length ld),
                   labels := labels b1 @ [ld]\<rparr>)
               (self\<lparr>next_seq_idx := c1 + 1\<rparr>))"
    using loop_body_eligible[OF w sid pm e1, of ns] e(2) s1 by simp
  moreover have "walk_inv self c0 b1 c1 v"
    using wi(1) by (simp add: c1_def)
  ultimately show ?thesis
    using c1 wi(3) fe e(3)
    by (intro exI[of _ b1] exI[of _ c1] exI[of _ e] exI[of _ ld]) simp
qed

lemma while_loop_dense:
  assumes "dense_labelled self" and "walk_inv self c0 b (next_seq_idx self) v"
  shows "\<exists>b' c' v'. while_loop ns 1 0 b self = Some (Inr (b', self\<lparr>next_seq_idx := c'\<rparr>)) \<and>
           walk_inv self c0 b' c' v' \<and> v \<le> v' \<and>
           (max (f_sample_count b) (l_sample_count b) < ns \<and> \<not> truthy (features b) \<longrightarrow> v < v')"
  using assms
proof (induction "nat (2 * ns - f_sample_count b - l_sample_count b)" arbitrary: b self v rule: less_induct)
  case less
  note d = less.prems(1) and inv = less.prems(2)
  show ?case
  proof (cases "max (f_sample_count b) (l_sample_count b) < ns")
    case False
    then have "while_loop ns 1 0 b self = Some (Inr (b, self\<lparr>next_seq_idx := next_seq_idx self\<rparr>))"
      by (simp add: while_loop_exit)
    with inv False show ?thesis by blast
  next
    case True
    from dense_turn[OF d inv, of ns] obtain b1 c1 and e :: seq_entry and ld where
      t: "walk_inv self c0 b1 c1 v" "c1 = int (v mod length (sequences self))"
         "features b1 = features b" "labels b1 = labels b"
         "f_sample_count b1 = f_sample_count b" "l_sample_count b1 = l_sample_count b"
         "seq_features e = features_of self c1" "truthy (seq_features e) \<or> truthy ld"
      and body: "loop_body ns 1 0 b self =
       (if (truthy (features b1) \<or> truthy (labels b1)) \<and>
           ns < max (f_sample_count b1 + int (length (seq_features e)))
                    (l_sample_count b1 + int (length ld))
        then Break b1 (self\<lparr>next_seq_idx := c1\<rparr>)
        else Again
               (b1\<lparr>f_sample_count := f_sample_count b1 + int (length (seq_features e)),
                   features := features b1 @ [seq_features e],
                   l_sample_count := l_sample_count b1 + int (length ld),
                   labels := labels b1 @ [ld]\<rparr>)
               (self\<lparr>next_seq_idx := c1 + 1\<rparr>))"
      by blast
    show ?thesis
    proof (cases "(truthy (features b1) \<or> truthy (labels b1)) \<and>
           ns < max (f_sample_count b1 + int (length (seq_features e)))
                    (l_sample_count b1 + int (length ld))")
      case brk: True
      with body have "loop_body ns 1 0 b self = Break b1 (self\<lparr>next_seq_idx := c1\<rparr>)"
        by simp
      with True have "while_loop ns 1 0 b self = Some (Inr (b1, self\<lparr>next_seq_idx := c1\<rparr>))"
        by (rule while_loop_break)
      moreover have "truthy (features b)"
        using brk t(1,3,4) by (auto simp: walk_inv_def)
      ultimately show ?thesis
        using t(1) by blast
    next
      case nobrk: False
      let ?b2 = "b1\<lparr>f_sample_count := f_sample_count b1 + int (length (seq_features e)),
                   features := features b1 @ [seq_features e],
                   l_sample_count := l_sample_count b1 + int (length ld),
                   labels := labels b1 @ [ld]\<rparr>"
      let ?s2 = "self\<lparr>next_seq_idx := c1 + 1\<rparr>"
      from nobrk body have "loop_body ns 1 0 b self = Again ?b2 ?s2"
        by simp
      with True have unf: "while_loop ns 1 0 b self = while_loop ns 1 0 ?b2 ?s2"
        by (rule while_loop_again)
      have n: "0 < length (sequences self)"
        using d by (simp add: dense_labelled_def truthy_def)
      have inv2: "walk_inv ?s2 c0 ?b2 (next_seq_idx ?s2) (Suc v)"
        using walk_inv_step[OF t(1,2) n t(7)] by simp
      have pos: "0 < int (length (seq_features e)) + int (length ld)"
        using t(8) by (cases "seq_features e"; cases ld) (simp_all add: truthy_def)
      have "f_sample_count b < ns" "l_sample_count b < ns"
        using True by simp_all
      with pos have "2 * ns - (f_sample_count b + int (length (seq_features e)))
                          - (l_sample_count b + int (length ld))
                     < 2 * ns - f_sample_count b - l_sample_count b"
        and "0 < 2 * ns - f_sample_count b - l_sample_count b"
        by linarith+
      then have dec: "nat (2 * ns - f_sample_count ?b2 - l_sample_count ?b2)
            < nat (2 * ns - f_sample_count b - l_sample_count b)"
        using t(5,6) by simp
      have d2: "dense_labelled ?s2"
        using d by simp
      from less.hyps[OF dec d2 inv2] obtain b' c' v' where
        r: "while_loop ns 1 0 ?b2 ?s2 = Some (Inr (b', ?s2\<lparr>next_seq_idx := c'\<rparr>))"
           "walk_inv ?s2 c0 b' c' v'" "Suc v \<le> v'"
        by blast
      from r(1) unf have "while_loop ns 1 0 b self = Some (Inr (b', self\<lparr>next_seq_idx := c'\<rparr>))"
        by simp
      moreover from r(2) have "walk_inv self c0 b' c' v'"
        by simp
      ultimately show ?thesis
        using r(3) by (intro exI[of _ b'] exI[of _ c'] exI[of _ v']) simp
    qed
  qed
qed


lemma label_arrays_mem:
  "a \<in> set (label_arrays d) \<longleftrightarrow> (\<exists>i e. (i, e) \<in> set d \<and> seq_labels e = Some a)"
  by (induction d) (auto simp: label_arrays_def split: option.splits)

lemma stackable_all:
  assumes "stackable xs" and "a \<in> set xs" and "a' \<in> set xs"
  shows "map length a = map length a'"
proof (cases xs)
  case Nil
  with assms(2) show ?thesis by simp
next
  case (Cons a0 rest)
  with assms(1) have "\<forall>x \<in> set rest. map length x = map length a0"
    by (simp add: stackable_def list_all_iff)
  then have "\<forall>x \<in> set xs. map length x = map length a0"
    using Cons by simp
  with assms(2,3) show ?thesis by simp
qed

lemma stackable_subset:
  assumes "stackable xs" and "set ys \<subseteq> set xs"
  shows "stackable ys"
proof (cases ys)
  case Nil
  then show ?thesis by (simp add: stackable_def)
next
  case (Cons y0 rest)
  have "map length a = map length y0" if "a \<in> set rest" for a
    using stackable_all[OF assms(1), of a y0] assms(2) Cons that by auto
  then show ?thesis
    using Cons by (simp add: stackable_def list_all_iff)
qed

text \<open>The label arrays of a batch are label arrays of the dictionary.\<close>

lemma loop_body_labels:
  assumes "loop_body n W r b self = Again b' s' \<or> loop_body n W r b self = Break b' s'"
    and "set (labels b) \<subseteq> set (label_arrays (data self))"
  shows "set (labels b') \<subseteq> set (label_arrays (data self))"
proof -
  obtain b1 self1 where w: "sweep_wrap b self = (b1, self1)"
    by (cases "sweep_wrap b self")
  have l: "labels b1 = labels b" "data self1 = data self"
    using w by (auto simp: sweep_wrap_def split: if_splits)
  have "labels b' = labels b \<or>
        (\<exists>i e a. map_of (data self) i = Some e \<and> seq_labels e = Some a \<and> labels b' = labels b @ [a])"
    using assms(1) w l
    by (auto simp: loop_body_def Let_def split: sum.splits option.splits if_splits)
  then show ?thesis
  proof
    assume "labels b' = labels b"
    with assms(2) show ?thesis by simp
  next
    assume "\<exists>i e a. map_of (data self) i = Some e \<and> seq_labels e = Some a \<and> labels b' = labels b @ [a]"
    then obtain i e a where
      e: "map_of (data self) i = Some e" "seq_labels e = Some a" "labels b' = labels b @ [a]"
      by blast
    from e(1) have "(i, e) \<in> set (data self)"
      by (rule map_of_SomeD)
    with e(2) have "a \<in> set (label_arrays (data self))"
      unfolding label_arrays_mem by blast
    with assms(2) e(3) show ?thesis by simp
  qed
qed

lemma while_loop_labels:
  "while_loop n W r b self = Some out \<Longrightarrow>
   set (labels b) \<subseteq> set (label_arrays (data self)) \<longrightarrow>
   (case out of Inl err \<Rightarrow> True
    | Inr (b', s') \<Rightarrow> set (labels b') \<subseteq> set (label_arrays (data self)))"
proof (induction rule: while_loop.raw_induct[rotated, consumes 1])
  case (1 loop n W r b self out)
  show ?case
  proof
    assume sub: "set (labels b) \<subseteq> set (label_arrays (data self))"
    show "case out of Inl err \<Rightarrow> True
          | Inr (b', s') \<Rightarrow> set (labels b') \<subseteq> set (label_arrays (data self))"
    proof (cases "max (f_sample_count b) (l_sample_count b) < n")
      case False
      with 1(2) sub show ?thesis by auto
    next
      case True
      show ?thesis
      proof (cases "loop_body n W r b self")
        case (Again b2 s2)
        with True 1(2) have r: "loop n W r b2 s2 = Some out" by simp
        from Again have "unchanged_but_cursor self s2"
          using loop_body_frame[of n W r b self b2 s2] by simp
        then have d: "data s2 = data self"
          by (simp add: unchanged_but_cursor_def)
        from Again sub have "set (labels b2) \<subseteq> set (label_arrays (data self))"
          using loop_body_labels[of n W r b self b2 s2] by simp
        with 1(1)[OF r, unfolded d] show ?thesis by blast
      next
        case (Break b2 s2)
        with sub have "set (labels b2) \<subseteq> set (label_arrays (data self))"
          using loop_body_labels[of n W r b self b2 s2] by simp
        with Break True 1(2) show ?thesis by auto
      next
        case (Raise e s2)
        with True 1(2) show ?thesis by auto
      qed
    qed
  qed
qed

lemma prepare_nextbatch_stackable:
  assumes "prepare_nextbatch n W r self = Some (Inr (b', s'))"
    and "stackable (label_arrays (data self))"
  shows "stackable (labels b')"
proof -
  from while_loop_labels[OF assms(1)[unfolded prepare_nextbatch_def]]
  have "set (labels b') \<subseteq> set (label_arrays (data self))"
    by simp
  with assms(2) show ?thesis
    by (rule stackable_subset)
qed

lemma prepare_nextbatch_dense:
  assumes d: "dense_labelled self" and c: "next_seq_idx self = int p" "p \<le> length (sequences self)"
    and ns: "0 < ns"
  shows "\<exists>b' c' v'. prepare_nextbatch ns 1 0 self = Some (Inr (b', self\<lparr>next_seq_idx := c'\<rparr>)) \<and>
           walk_inv self p b' c' v' \<and> p < v'"
proof -
  let ?b0 = "\<lparr>features = [], f_sample_count = 0, labels = [], l_sample_count = 0, sweep_end = False\<rparr>"
  have "walk_inv self p ?b0 (next_seq_idx self) p"
    using c by (simp add: walk_inv_def visited_def truthy_def)
  from while_loop_dense[OF d this, of ns] ns show ?thesis
    unfolding prepare_nextbatch_def by (simp add: truthy_def) blast
qed

lemma next_minibatch_dense:
  assumes d: "dense_labelled self" and c: "next_seq_idx self = int p" "p \<le> length (sequences self)"
    and ns: "0 < ns"
  shows "\<exists>res c' v'. next_minibatch ns 1 0 device self = Some (Inr (res, self\<lparr>next_seq_idx := c'\<rparr>)) \<and>
           minibatch_sequences res = visited self p v' \<and> p < v' \<and>
           (if minibatch_sweep_end res then length (sequences self) \<le> v'
            else c' = int v' \<and> v' \<le> length (sequences self))"
proof -
  from prepare_nextbatch_dense[OF d c ns] obtain b' c' v' where
    r: "prepare_nextbatch ns 1 0 self = Some (Inr (b', self\<lparr>next_seq_idx := c'\<rparr>))"
       "walk_inv self p b' c' v'" "p < v'"
    by blast
  let ?res = "[(fsi self, \<lparr>mb_value = One_hot (features b') (f_dim self) device,
                           mb_num_sequences = int (length (features b')),
                           mb_num_samples = f_sample_count b', mb_sweep_end = sweep_end b'\<rparr>),
               (lsi self, \<lparr>mb_value = Dense (labels b') device,
                           mb_num_sequences = int (length (features b')),
                           mb_num_samples = l_sample_count b', mb_sweep_end = sweep_end b'\<rparr>)]"
  have "stackable (labels b')"
    using prepare_nextbatch_stackable[OF r(1)] d by (simp add: dense_labelled_def)
  then have "next_minibatch ns 1 0 device self = Some (Inr (?res, self\<lparr>next_seq_idx := c'\<rparr>))"
    using r(1) by (simp add: next_minibatch_def Let_def)
  moreover have "minibatch_sequences ?res = visited self p v'"
    using r(2) by (simp add: minibatch_sequences_def walk_inv_def)
  moreover have "if minibatch_sweep_end ?res then length (sequences self) \<le> v'
            else c' = int v' \<and> v' \<le> length (sequences self)"
    using r(2) by (auto simp: minibatch_sweep_end_def walk_inv_def split: if_splits)
  ultimately show ?thesis
    using r(3) by blast
qed

lemma calls_until_sweep_end_dense:
  assumes "dense_labelled self" and "next_seq_idx self = int p" and "p \<le> length (sequences self)"
    and ns: "0 < ns"
  shows "\<exists>m c'. calls_until_sweep_end ns device seen self
                  = Some (Inr (seen @ visited self p m, self\<lparr>next_seq_idx := c'\<rparr>)) \<and>
               length (sequences self) \<le> m"
  using assms(1-3)
proof (induction "length (sequences self) - p" arbitrary: p self seen rule: less_induct)
  case less
  note d = less.prems(1) and c = less.prems(2,3)
  from next_minibatch_dense[OF d c ns, of device] obtain res c' v' where
    r: "next_minibatch ns 1 0 device self = Some (Inr (res, self\<lparr>next_seq_idx := c'\<rparr>))"
       "minibatch_sequences res = visited self p v'" "p < v'"
       "if minibatch_sweep_end res then length (sequences self) \<le> v'
        else c' = int v' \<and> v' \<le> length (sequences self)"
    by blast
  show ?case
  proof (cases "minibatch_sweep_end res")
    case True
    then have "calls_until_sweep_end ns device seen self
                = Some (Inr (seen @ visited self p v', self\<lparr>next_seq_idx := c'\<rparr>))"
      using r(1,2) by (subst calls_until_sweep_end.simps) simp
    with True r(4) show ?thesis by auto
  next
    case False
    let ?s = "self\<lparr>next_seq_idx := c'\<rparr>"
    from False r(4) have v: "c' = int v'" "v' \<le> length (sequences self)" by simp_all
    have unf: "calls_until_sweep_end ns device seen self
                = calls_until_sweep_end ns device (seen @ visited self p v') ?s"
      using False r(1,2) by (subst calls_until_sweep_end.simps) simp
    have "length (sequences ?s) - v' < length (sequences self) - p"
      using r(3) v(2) by simp
    moreover have "dense_labelled ?s" "next_seq_idx ?s = int v'" "v' \<le> length (sequences ?s)"
      using d v by simp_all
    ultimately obtain m c'' where
      ih: "calls_until_sweep_end ns device (seen @ visited self p v') ?s
            = Some (Inr ((seen @ visited self p v') @ visited ?s v' m, ?s\<lparr>next_seq_idx := c''\<rparr>))"
          "length (sequences ?s) \<le> m"
      using less.hyps[of ?s v' "seen @ visited self p v'"] by blast
    have "v' \<le> m" using ih(2) v(2) by simp
    then have "visited self p v' @ visited self v' m = visited self p m"
      using r(3) by (intro visited_append) simp_all
    then have "calls_until_sweep_end ns device seen self
                = Some (Inr (seen @ visited self p m, self\<lparr>next_seq_idx := c''\<rparr>))"
      using unf ih(1) by simp
    with ih(2) show ?thesis by auto
  qed
qed

lemma visited_first_round:
  assumes "sequences self = map int [0..<length (sequences self)]" and "length (sequences self) \<le> m"
  shows "take (length (sequences self)) (visited self 0 m) = map (features_of self) (sequences self)"
proof -
  let ?n = "length (sequences self)"
  have "take ?n (visited self 0 m) = map (\<lambda>k. features_of self (int (k mod ?n))) [0..<?n]"
    using assms(2) by (simp add: visited_def take_map)
  also have "\<dots> = map (\<lambda>k. features_of self (int k)) [0..<?n]"
    by (rule map_cong) simp_all
  also have "\<dots> = map (features_of self) (map int [0..<?n])"
    by (simp add: comp_def)
  also have "\<dots> = map (features_of self) (sequences self)"
    by (rule arg_cong[where f = "map (features_of self)"]) (rule assms(1)[symmetric])
  finally show ?thesis .
qed

subsection \<open>What the constructor guarantees\<close>

lemma prepare_line_features:
  assumes "prepare_line l d = Inr d'"
    and "\<forall>i e. map_of d i = Some e \<longrightarrow> truthy (seq_features e)"
  shows "\<forall>i e. map_of d' i = Some e \<longrightarrow> truthy (seq_features e)"
proof -
  have upd: "\<forall>i e. map_of (AList.map_entry k (\<lambda>e. e\<lparr>seq_features := seq_features e @ [v]\<rparr>) d1) i = Some e
                \<longrightarrow> truthy (seq_features e)"
    if "\<forall>i e. i \<noteq> k \<longrightarrow> map_of d1 i = Some e \<longrightarrow> truthy (seq_features e)" for k v d1
    using that by (auto simp: map_of_map_entry truthy_def split: option.splits if_splits)
  have lab: "\<forall>i e. map_of (AList.map_entry k (\<lambda>e. e\<lparr>seq_labels := a\<rparr>) d2) i = Some e
                \<longrightarrow> truthy (seq_features e)"
    if "\<forall>i e. map_of d2 i = Some e \<longrightarrow> truthy (seq_features e)" for k a d2
    using that by (auto simp: map_of_map_entry split: option.splits if_splits)
  have fresh: "\<forall>i e. i \<noteq> k \<longrightarrow> map_of d1 i = Some e \<longrightarrow> truthy (seq_features e)"
    if "d1 = d \<or> d1 = AList.update k e0 d" for k e0 d1
    using assms(2) that by (auto simp: update_conv')
  from assms(1) have
    "d' = d \<or>
     (\<exists>k v d1. (d1 = d \<or> d1 = AList.update k \<lparr>seq_features = [], seq_labels = None\<rparr> d) \<and>
        (d' = AList.map_entry k (\<lambda>e. e\<lparr>seq_features := seq_features e @ [v]\<rparr>) d1 \<or>
         (\<exists>a. d' = AList.map_entry k (\<lambda>e. e\<lparr>seq_labels := a\<rparr>)
                      (AList.map_entry k (\<lambda>e. e\<lparr>seq_features := seq_features e @ [v]\<rparr>) d1))))"
    by (simp add: prepare_line_def Let_def split: if_splits list.splits sum.splits) blast+
  then consider
    (blank) "d' = d"
    | (plain) k v d1 where
        "d1 = d \<or> d1 = AList.update k \<lparr>seq_features = [], seq_labels = None\<rparr> d"
        "d' = AList.map_entry k (\<lambda>e. e\<lparr>seq_features := seq_features e @ [v]\<rparr>) d1"
    | (labelled) k v d1 a where
        "d1 = d \<or> d1 = AList.update k \<lparr>seq_features = [], seq_labels = None\<rparr> d"
        "d' = AList.map_entry k (\<lambda>e. e\<lparr>seq_labels := a\<rparr>)
               (AList.map_entry k (\<lambda>e. e\<lparr>seq_features := seq_features e @ [v]\<rparr>) d1)"
    by blast
  then show ?thesis
  proof cases
    case blank
    with assms(2) show ?thesis by simp
  next
    case plain
    show ?thesis unfolding plain(2) by (rule upd[OF fresh[OF plain(1)]])
  next
    case labelled
    show ?thesis unfolding labelled(2) by (rule lab[OF upd[OF fresh[OF labelled(1)]]])
  qed
qed

lemma prepare_lines_features:
  assumes "prepare_lines ls d = Inr d'"
    and "\<forall>i e. map_of d i = Some e \<longrightarrow> truthy (seq_features e)"
  shows "\<forall>i e. map_of d' i = Some e \<longrightarrow> truthy (seq_features e)"
  using assms
proof (induction ls arbitrary: d)
  case Nil
  then show ?case by simp
next
  case (Cons l ls)
  from Cons.prems(1) obtain d1 where
    s: "prepare_line l d = Inr d1" "prepare_lines ls d1 = Inr d'"
    by (auto split: sum.splits)
  from prepare_line_features[OF s(1) Cons.prems(2)]
  have "\<forall>i e. map_of d1 i = Some e \<longrightarrow> truthy (seq_features e)" .
  from Cons.IH[OF s(2) this] show ?case .
qed

text \<open>What the constructor guarantees of every instance it builds.\<close>

lemma constructed:
  assumes "MyMultiWorkerDataSource sample F L = Inr self"
  shows "sequences self = sort (map fst (data self))"
    and "next_seq_idx self = 0"
    and "\<forall>i e. map_of (data self) i = Some e \<longrightarrow> truthy (seq_features e)"
proof -
  from assms obtain d where
    d: "prepare_data sample = Inr d" "data self = d" "sequences self = sort (map fst d)"
       "next_seq_idx self = 0"
    by (auto simp: MyMultiWorkerDataSource_def split: sum.splits)
  show "sequences self = sort (map fst (data self))" using d by simp
  show "next_seq_idx self = 0" using d by simp
  have "\<forall>i e. map_of d i = Some e \<longrightarrow> truthy (seq_features e)"
    using prepare_lines_features[OF d(1)[unfolded prepare_data_def]] by simp
  then show "\<forall>i e. map_of (data self) i = Some e \<longrightarrow> truthy (seq_features e)"
    using d(2) by simp
qed

lemma dense_labelled_index_state:
  assumes s: "sequences self = sort (map fst (data self))"
    and f: "\<forall>i e. map_of (data self) i = Some e \<longrightarrow> truthy (seq_features e)"
    and x: "dense_labelled_index (data self)"
  shows "dense_labelled self"
proof -
  let ?d = "data self"
  from x have t: "truthy ?d" and k: "sort (map fst ?d) = map int [0..<length ?d]"
    and l: "\<forall>(i, e) \<in> set ?d. seq_labels e \<noteq> None" and st: "stackable (label_arrays ?d)"
    by (simp_all add: dense_labelled_index_def list_all_iff)
  have len: "length (sequences self) = length ?d"
    using s by simp
  have "truthy (sequences self)"
    using t len by (auto simp: truthy_def)
  moreover have "sequences self = map int [0..<length (sequences self)]"
    using s k len by simp
  moreover have "list_all (\<lambda>i. case map_of ?d i of
                        None \<Rightarrow> False
                      | Some e \<Rightarrow> (case seq_labels e of
                                    None \<Rightarrow> False
                                  | Some ld \<Rightarrow> truthy (seq_features e) \<or> truthy ld))
        (sequences self)"
    unfolding list_all_iff
  proof
    fix i assume "i \<in> set (sequences self)"
    then have "i \<in> fst ` set ?d" using s by simp
    then obtain e where e: "map_of ?d i = Some e"
      by (cases "map_of ?d i") (auto simp: map_of_eq_None_iff)
    then have "(i, e) \<in> set ?d" by (rule map_of_SomeD)
    with l obtain ld where "seq_labels e = Some ld" by fastforce
    moreover from f e have "truthy (seq_features e)" by blast
    ultimately show "case map_of ?d i of
                        None \<Rightarrow> False
                      | Some e \<Rightarrow> (case seq_labels e of
                                    None \<Rightarrow> False
                                  | Some ld \<Rightarrow> truthy (seq_features e) \<or> truthy ld)"
      using e by simp
  qed
  ultimately show ?thesis
    using st by (simp add: dense_labelled_def)
qed

lemma unchanged_but_cursor_dense_labelled:
  "unchanged_but_cursor self0 self \<Longrightarrow> dense_labelled self0 \<Longrightarrow> dense_labelled self"
  by (simp add: unchanged_but_cursor_def dense_labelled_def)

lemma constructed_dense_labelled:
  assumes "MyMultiWorkerDataSource sample F L = Inr self0" and "dense_labelled_index (data self0)"
    and "unchanged_but_cursor self0 self"
  shows "dense_labelled self"
  using dense_labelled_index_state[OF constructed(1,3)[OF assms(1)] assms(2)] assms(3)
  by (rule unchanged_but_cursor_dense_labelled[rotated])

subsection \<open>A sweep of one worker\<close>

text \<open>
  Claim C3 as amended. Take an instance as the constructor builds it (so at cursor 0)
  from a data set whose sorted identifiers are \<open>0, \<dots>, n - 1\<close>, \<open>n > 0\<close>, with a label
  array for every sequence, all of one shape. One worker (count 1, rank 0) that asks for
  a positive number of samples until a minibatch has the sweep flag set does get such a
  minibatch, and the sequences it was given up to and including that minibatch are the
  walk taken from its start: first every identifier once in ascending order, then, if
  the flagged minibatch went on after the wrap, the walk again from the first
  identifier (\<open>m - n\<close> more sequences, possibly none).
\<close>

theorem sweep_returns_every_sequence_in_order:
  "MyMultiWorkerDataSource sample F L = Inr self \<and> dense_labelled_index (data self) \<and>
   0 < num_samples \<longrightarrow>
     (\<exists>m c'. calls_until_sweep_end num_samples device [] self
                = Some (Inr (visited self 0 m, self\<lparr>next_seq_idx := c'\<rparr>)) \<and>
             length (sequences self) \<le> m \<and>
             sequences self = map int [0..<length (data self)] \<and>
             take (length (sequences self)) (visited self 0 m)
               = map (features_of self) (sequences self))"
proof
  assume h: "MyMultiWorkerDataSource sample F L = Inr self \<and> dense_labelled_index (data self) \<and>
   0 < num_samples"
  then have c: "MyMultiWorkerDataSource sample F L = Inr self" and x: "dense_labelled_index (data self)"
    and ns: "0 < num_samples"
    by simp_all
  have d: "dense_labelled self"
    using constructed_dense_labelled[OF c x] by (simp add: unchanged_but_cursor_def)
  have "next_seq_idx self = int 0"
    using constructed(2)[OF c] by simp
  from calls_until_sweep_end_dense[OF d this _ ns, of device "[]"]
  obtain m c' where
    r: "calls_until_sweep_end num_samples device [] self
          = Some (Inr (visited self 0 m, self\<lparr>next_seq_idx := c'\<rparr>))"
       "length (sequences self) \<le> m"
    by auto
  have s: "sequences self = map int [0..<length (sequences self)]"
    using d by (simp add: dense_labelled_def)
  have "length (sequences self) = length (data self)"
    using constructed(1)[OF c] by simp
  with s have "sequences self = map int [0..<length (data self)]"
    by metis
  with visited_first_round[OF s r(2)] r
  show "\<exists>m c'. calls_until_sweep_end num_samples device [] self
                = Some (Inr (visited self 0 m, self\<lparr>next_seq_idx := c'\<rparr>)) \<and>
             length (sequences self) \<le> m \<and>
             sequences self = map int [0..<length (data self)] \<and>
             take (length (sequences self)) (visited self 0 m)
               = map (features_of self) (sequences self)"
    by blast
qed

lemma mbs_dense_labelled_index: "dense_labelled_index (data mbs)"
  by code_simp

lemma mbs_three_calls:
  "calls_until_sweep_end 7 ''cpu'' [] mbs
     = Some (Inr (map (features_of mbs) [0, 1, 2, 3, 0, 1], mbs\<lparr>next_seq_idx := 2\<rparr>))"
  by code_simp

theorem sweep_returns_every_sequence_in_order_witness:
  "MyMultiWorkerDataSource sample_data 1000 5 = Inr mbs \<and> dense_labelled_index (data mbs) \<and>
   (0::int) < 7 \<and>
   (\<exists>m c'. calls_until_sweep_end 7 ''cpu'' [] mbs
                = Some (Inr (visited mbs 0 m, mbs\<lparr>next_seq_idx := c'\<rparr>)) \<and>
             length (sequences mbs) \<le> m \<and>
             sequences mbs = map int [0..<length (data mbs)] \<and>
             take (length (sequences mbs)) (visited mbs 0 m) = map (features_of mbs) (sequences mbs)) \<and>
   calls_until_sweep_end 7 ''cpu'' [] mbs
     = Some (Inr (map (features_of mbs) [0, 1, 2, 3, 0, 1], mbs\<lparr>next_seq_idx := 2\<rparr>))"
  using sweep_returns_every_sequence_in_order[of sample_data 1000 5 mbs 7 "''cpu''"]
    mbs_constructed mbs_dense_labelled_index mbs_three_calls
  by simp

lemma mbs_three_batches:
  "prepare_nextbatch 7 1 0 mbs =
     Some (Inr (\<lparr>features = [[560, 0, 0], [560, 0, 0, 424]], f_sample_count = 7,
                  labels = [[[''1'', ''0'', ''0'', ''0'', ''0'']], [[''0'', ''1'', ''0'', ''0'', ''0'']]],
                  l_sample_count = 2, sweep_end = False\<rparr>,
                mbs\<lparr>next_seq_idx := 2\<rparr>))"
  "prepare_nextbatch 7 1 0 (mbs\<lparr>next_seq_idx := 2\<rparr>) =
     Some (Inr (\<lparr>features = [[160, 5, 6], [460, 3, 3, 425]], f_sample_count = 7,
                  labels = [[[''0'', ''0'', ''1'', ''0'', ''0'']], [[''0'', ''0'', ''0'', ''1'', ''0'']]],
                  l_sample_count = 2, sweep_end = False\<rparr>,
                mbs\<lparr>next_seq_idx := 4\<rparr>))"
  "prepare_nextbatch 7 1 0 (mbs\<lparr>next_seq_idx := 4\<rparr>) =
     Some (Inr (\<lparr>features = [[560, 0, 0], [560, 0, 0, 424]], f_sample_count = 7,
                  labels = [[[''1'', ''0'', ''0'', ''0'', ''0'']], [[''0'', ''1'', ''0'', ''0'', ''0'']]],
                  l_sample_count = 2, sweep_end = True\<rparr>,
                mbs\<lparr>next_seq_idx := 2\<rparr>))"
  by code_simp+


text \<open>
  Claim C3 says that by the first minibatch with the sweep flag set every sequence has
  been returned exactly once. On the notebook's instance with 7 requested samples the
  first call returns sequences 0 and 1, the second returns 2 and 3 and fills the request
  exactly, so the loop ends before the wrap test and the flag stays unset; the third
  call wraps, sets the flag and returns sequences 0 and 1 again
  (\<open>mbs_three_batches\<close>).
\<close>

theorem sweep_repeats_sequences_counterexample:
  "calls_until_sweep_end 7 ''cpu'' [] mbs
     = Some (Inr (map (features_of mbs) [0, 1, 2, 3, 0, 1], mbs\<lparr>next_seq_idx := 2\<rparr>)) \<and>
   sequences mbs = [0, 1, 2, 3] \<and>
   map (features_of mbs) [0, 1, 2, 3, 0, 1] \<noteq> map (features_of mbs) (sequences mbs)"
  using mbs_three_calls by (simp add: mbs_def)


subsection \<open>The sample budget\<close>


lemma sweep_wrap_locals:
  assumes "sweep_wrap b self = (b1, self1)"
  shows "features b1 = features b" "labels b1 = labels b"
    "f_sample_count b1 = f_sample_count b" "l_sample_count b1 = l_sample_count b"
  using assms by (auto simp: sweep_wrap_def split: if_splits)

lemma loop_body_grows:
  assumes "truthy (features b) = truthy (labels b)"
  shows "case loop_body n W r b self of
           Again b2 s2 \<Rightarrow>
             truthy (features b2) = truthy (labels b2) \<and>
             (truthy (features b2) \<or>
              f_sample_count b2 = f_sample_count b \<and> l_sample_count b2 = l_sample_count b)
         | Break b2 s2 \<Rightarrow> truthy (features b2)
         | Raise e s2 \<Rightarrow> True"
proof -
  obtain b1 self1 where w: "sweep_wrap b self = (b1, self1)"
    by (cases "sweep_wrap b self")
  note l = sweep_wrap_locals[OF w]
  show ?thesis
    using assms l
    by (simp add: loop_body_def w Let_def truthy_def split: sum.splits option.splits)
qed

lemma while_loop_nonempty:
  "while_loop n W r b self = Some out \<Longrightarrow>
   truthy (features b) = truthy (labels b) \<longrightarrow>
   max (f_sample_count b) (l_sample_count b) < n \<or> truthy (features b) \<longrightarrow>
   (case out of Inl err \<Rightarrow> True | Inr (b', s') \<Rightarrow> truthy (features b'))"
proof (induction rule: while_loop.raw_induct[rotated, consumes 1])
  case (1 loop n W r b self out)
  show ?case
  proof (intro impI)
    assume eq: "truthy (features b) = truthy (labels b)"
      and dj: "max (f_sample_count b) (l_sample_count b) < n \<or> truthy (features b)"
    show "case out of Inl err \<Rightarrow> True | Inr (b', s') \<Rightarrow> truthy (features b')"
    proof (cases "max (f_sample_count b) (l_sample_count b) < n")
      case False
      with 1(2) dj show ?thesis by auto
    next
      case True
      note g = loop_body_grows[OF eq, of n W r self]
      show ?thesis
      proof (cases "loop_body n W r b self")
        case (Again b2 s2)
        with True 1(2) have "loop n W r b2 s2 = Some out" by simp
        from 1(1)[OF this] g Again True show ?thesis by auto
      next
        case (Break b2 s2)
        with True 1(2) g show ?thesis by auto
      next
        case (Raise e s2)
        with True 1(2) show ?thesis by auto
      qed
    qed
  qed
qed

lemma next_minibatch_nonempty:
  assumes "0 < n" and "next_minibatch n W r device self = Some (Inr (res, self'))"
  shows "minibatch_sequences res \<noteq> []"
proof -
  from assms(2) obtain b' where
    p: "prepare_nextbatch n W r self = Some (Inr (b', self'))"
    and res: "minibatch_sequences res = features b'"
    by (auto simp: next_minibatch_def Let_def minibatch_sequences_def
        split: option.splits sum.splits prod.splits if_splits)
  from while_loop_nonempty[OF p[unfolded prepare_nextbatch_def]] assms(1)
  have "truthy (features b')" by (simp add: truthy_def)
  with res show ?thesis by (simp add: truthy_def)
qed

lemma mbs_single_sample_request:
  "next_minibatch 1 1 0 ''cpu'' mbs =
     Some (Inr ([(fsi mbs, \<lparr>mb_value = One_hot [[560, 0, 0]] 1000 ''cpu'',
                             mb_num_sequences = 1, mb_num_samples = 3, mb_sweep_end = False\<rparr>),
                 (lsi mbs, \<lparr>mb_value = Dense [[[''1'', ''0'', ''0'', ''0'', ''0'']]] ''cpu'',
                             mb_num_sequences = 1, mb_num_samples = 1, mb_sweep_end = False\<rparr>)],
                mbs\<lparr>next_seq_idx := 1\<rparr>))"
  by code_simp

text \<open>
  Claim C7 says, with the stopping rule, that for a request of 1 on a non-empty index
  the batch holds at least one sequence. On the index of the one sequence of
  \<open>no_label_data\<close>, which has no label, there is no batch: the call raises \<open>KeyError\<close>.
\<close>

theorem unlabelled_request_counterexample:
  "MyMultiWorkerDataSource no_label_data 1000 2 = Inr unlabelled \<and> truthy (data unlabelled) \<and>
   next_minibatch 1 1 0 ''cpu'' unlabelled = Some (Inl (KeyError, unlabelled))"
proof -
  have "next_minibatch 1 1 0 ''cpu'' unlabelled = Some (Inl (KeyError, unlabelled))"
    by code_simp
  moreover have "truthy (data unlabelled)"
    by (simp add: unlabelled_def truthy_def)
  ultimately show ?thesis
    using unlabelled_constructed by simp
qed

text \<open>
  Claim C7 as amended. Let the walk have reached a sequence of this worker that has a
  label array, the loop test being true. If the batch is not empty and one of the two
  counts would exceed \<open>num_samples\<close> with the sequence added, the call returns at once
  what it has, and the cursor stays at that sequence (\<open>self1\<close> is the instance after the
  wrap test, and \<open>seq_id_at self1\<close> is the sequence). In every other case, in particular
  when the batch is empty, however large the sequence, it is added and the cursor moves
  on. Hence a minibatch returned for a positive request, 1 included, is never empty.
  And a minibatch is returned to a single worker (count 1, rank 0) with a positive
  request by every instance that the constructor has built from a data set with sorted
  identifiers \<open>0, \<dots>, n - 1\<close>, \<open>n > 0\<close>, and a label array for every sequence, all of one
  shape, wherever in \<open>0, \<dots>, n\<close> its cursor is by then. (In the witness the request is 1
  and the sequence returned has 3 samples.)
\<close>

theorem sample_budget_rule:
  "(sweep_wrap b self = (b1, self1) \<and> seq_id_at self1 = Inr seq_id \<and>
    py_mod seq_id number_of_workers = Inr worker_rank \<and>
    map_of (data self1) seq_id = Some entry \<and> seq_labels entry = Some label_data \<and>
    max (f_sample_count b) (l_sample_count b) < num_samples \<longrightarrow>
      (if (truthy (features b1) \<or> truthy (labels b1)) \<and>
          num_samples < max (f_sample_count b1 + int (length (seq_features entry)))
                            (l_sample_count b1 + int (length label_data))
       then while_loop num_samples number_of_workers worker_rank b self = Some (Inr (b1, self1))
       else while_loop num_samples number_of_workers worker_rank b self =
            while_loop num_samples number_of_workers worker_rank
              (b1\<lparr>f_sample_count := f_sample_count b1 + int (length (seq_features entry)),
                  features := features b1 @ [seq_features entry],
                  l_sample_count := l_sample_count b1 + int (length label_data),
                  labels := labels b1 @ [label_data]\<rparr>)
              (self1\<lparr>next_seq_idx := next_seq_idx self1 + 1\<rparr>))) \<and>
   (0 < num_samples \<and>
    next_minibatch num_samples number_of_workers worker_rank device self = Some (Inr (res, self')) \<longrightarrow>
      minibatch_sequences res \<noteq> []) \<and>
   (MyMultiWorkerDataSource sample F L = Inr self0 \<and> dense_labelled_index (data self0) \<and>
    unchanged_but_cursor self0 self \<and> 0 \<le> next_seq_idx self \<and>
    next_seq_idx self \<le> int (length (sequences self)) \<and> 0 < num_samples \<longrightarrow>
      (\<exists>res' self''. next_minibatch num_samples 1 0 device self = Some (Inr (res', self'')) \<and>
                     minibatch_sequences res' \<noteq> []))"
proof (intro conjI impI)
  assume h: "sweep_wrap b self = (b1, self1) \<and> seq_id_at self1 = Inr seq_id \<and>
    py_mod seq_id number_of_workers = Inr worker_rank \<and>
    map_of (data self1) seq_id = Some entry \<and> seq_labels entry = Some label_data \<and>
    max (f_sample_count b) (l_sample_count b) < num_samples"
  then have c: "max (f_sample_count b) (l_sample_count b) < num_samples" by simp
  from h have e: "loop_body num_samples number_of_workers worker_rank b self =
     (if (truthy (features b1) \<or> truthy (labels b1)) \<and>
          num_samples < max (f_sample_count b1 + int (length (seq_features entry)))
                            (l_sample_count b1 + int (length label_data))
      then Break b1 self1
      else Again
              (b1\<lparr>f_sample_count := f_sample_count b1 + int (length (seq_features entry)),
                  features := features b1 @ [seq_features entry],
                  l_sample_count := l_sample_count b1 + int (length label_data),
                  labels := labels b1 @ [label_data]\<rparr>)
              (self1\<lparr>next_seq_idx := next_seq_idx self1 + 1\<rparr>))"
    using loop_body_eligible[of b self b1 self1 seq_id number_of_workers worker_rank entry num_samples]
    by simp
  show "if (truthy (features b1) \<or> truthy (labels b1)) \<and>
          num_samples < max (f_sample_count b1 + int (length (seq_features entry)))
                            (l_sample_count b1 + int (length label_data))
       then while_loop num_samples number_of_workers worker_rank b self = Some (Inr (b1, self1))
       else while_loop num_samples number_of_workers worker_rank b self =
            while_loop num_samples number_of_workers worker_rank
              (b1\<lparr>f_sample_count := f_sample_count b1 + int (length (seq_features entry)),
                  features := features b1 @ [seq_features entry],
                  l_sample_count := l_sample_count b1 + int (length label_data),
                  labels := labels b1 @ [label_data]\<rparr>)
              (self1\<lparr>next_seq_idx := next_seq_idx self1 + 1\<rparr>)"
  proof (cases "(truthy (features b1) \<or> truthy (labels b1)) \<and>
          num_samples < max (f_sample_count b1 + int (length (seq_features entry)))
                            (l_sample_count b1 + int (length label_data))")
    case True
    with e have "loop_body num_samples number_of_workers worker_rank b self = Break b1 self1"
      by simp
    from while_loop_break[OF c this] show ?thesis by (subst if_P[OF True])
  next
    case False
    with e have "loop_body num_samples number_of_workers worker_rank b self =
       Again
              (b1\<lparr>f_sample_count := f_sample_count b1 + int (length (seq_features entry)),
                  features := features b1 @ [seq_features entry],
                  l_sample_count := l_sample_count b1 + int (length label_data),
                  labels := labels b1 @ [label_data]\<rparr>)
              (self1\<lparr>next_seq_idx := next_seq_idx self1 + 1\<rparr>)"
      by simp
    from while_loop_again[OF c this] show ?thesis by (subst if_not_P[OF False])
  qed
next
  assume "0 < num_samples \<and>
    next_minibatch num_samples number_of_workers worker_rank device self = Some (Inr (res, self'))"
  then show "minibatch_sequences res \<noteq> []"
    using next_minibatch_nonempty by blast
next
  assume h: "MyMultiWorkerDataSource sample F L = Inr self0 \<and> dense_labelled_index (data self0) \<and>
    unchanged_but_cursor self0 self \<and> 0 \<le> next_seq_idx self \<and>
    next_seq_idx self \<le> int (length (sequences self)) \<and> 0 < num_samples"
  then have d: "dense_labelled self"
    using constructed_dense_labelled[of sample F L self0 self] by blast
  from h have "next_seq_idx self = int (nat (next_seq_idx self))"
    and "nat (next_seq_idx self) \<le> length (sequences self)"
    by (simp, linarith)
  from next_minibatch_dense[OF d this, of num_samples device] h
  obtain res' c' where
    r: "next_minibatch num_samples 1 0 device self = Some (Inr (res', self\<lparr>next_seq_idx := c'\<rparr>))"
    by blast
  with h next_minibatch_nonempty[of num_samples 1 0 device self res']
  show "\<exists>res' self''. next_minibatch num_samples 1 0 device self = Some (Inr (res', self'')) \<and>
                     minibatch_sequences res' \<noteq> []"
    by blast
qed


theorem sample_budget_rule_witness:
  "seq_id_at (mbs\<lparr>next_seq_idx := 2\<rparr>) = Inr 2 \<and> py_mod 2 1 = Inr 0 \<and>
   map_of (data mbs) 2 = Some \<lparr>seq_features = [160, 5, 6], seq_labels = Some [[''0'', ''0'', ''1'', ''0'', ''0'']]\<rparr> \<and>
   while_loop 8 1 0
       \<lparr>features = [[560, 0, 0], [560, 0, 0, 424]], f_sample_count = 7,
        labels = [[[''1'', ''0'', ''0'', ''0'', ''0'']], [[''0'', ''1'', ''0'', ''0'', ''0'']]],
        l_sample_count = 2, sweep_end = False\<rparr>
       (mbs\<lparr>next_seq_idx := 2\<rparr>)
     = Some (Inr (\<lparr>features = [[560, 0, 0], [560, 0, 0, 424]], f_sample_count = 7,
        labels = [[[''1'', ''0'', ''0'', ''0'', ''0'']], [[''0'', ''1'', ''0'', ''0'', ''0'']]],
        l_sample_count = 2, sweep_end = False\<rparr>,
                  mbs\<lparr>next_seq_idx := 2\<rparr>)) \<and>
   seq_id_at mbs = Inr 0 \<and> map_of (data mbs) 0 = Some \<lparr>seq_features = [560, 0, 0], seq_labels = Some [[''1'', ''0'', ''0'', ''0'', ''0'']]\<rparr> \<and>
   while_loop 1 1 0 \<lparr>features = [], f_sample_count = 0, labels = [], l_sample_count = 0, sweep_end = False\<rparr> mbs
     = Some (Inr (\<lparr>features = [[560, 0, 0]], f_sample_count = 3,
        labels = [[[''1'', ''0'', ''0'', ''0'', ''0'']]], l_sample_count = 1, sweep_end = False\<rparr>,
                  mbs\<lparr>next_seq_idx := 1\<rparr>)) \<and>
   next_minibatch 1 1 0 ''cpu'' mbs =
     Some (Inr ([(fsi mbs, \<lparr>mb_value = One_hot [[560, 0, 0]] 1000 ''cpu'',
                             mb_num_sequences = 1, mb_num_samples = 3, mb_sweep_end = False\<rparr>),
                 (lsi mbs, \<lparr>mb_value = Dense [[[''1'', ''0'', ''0'', ''0'', ''0'']]] ''cpu'',
                             mb_num_sequences = 1, mb_num_samples = 1, mb_sweep_end = False\<rparr>)],
                mbs\<lparr>next_seq_idx := 1\<rparr>)) \<and>
   minibatch_sequences
     [(fsi mbs, \<lparr>mb_value = One_hot [[560, 0, 0]] 1000 ''cpu'',
                                 mb_num_sequences = 1, mb_num_samples = 3, mb_sweep_end = False\<rparr>),
                     (lsi mbs, \<lparr>mb_value = Dense [[[''1'', ''0'', ''0'', ''0'', ''0'']]] ''cpu'',
                                 mb_num_sequences = 1, mb_num_samples = 1, mb_sweep_end = False\<rparr>)] \<noteq> [] \<and>
   MyMultiWorkerDataSource sample_data 1000 5 = Inr mbs \<and> dense_labelled_index (data mbs) \<and>
   unchanged_but_cursor mbs mbs \<and>
   (\<exists>res' self''. next_minibatch 1 1 0 ''cpu'' mbs = Some (Inr (res', self'')) \<and>
                  minibatch_sequences res' \<noteq> [])"
proof -
  let ?res = "[(fsi mbs, \<lparr>mb_value = One_hot [[560, 0, 0]] 1000 ''cpu'',
                             mb_num_sequences = 1, mb_num_samples = 3, mb_sweep_end = False\<rparr>),
                 (lsi mbs, \<lparr>mb_value = Dense [[[''1'', ''0'', ''0'', ''0'', ''0'']]] ''cpu'',
                             mb_num_sequences = 1, mb_num_samples = 1, mb_sweep_end = False\<rparr>)]"
  let ?b0 = "\<lparr>features = [], f_sample_count = 0, labels = [], l_sample_count = 0, sweep_end = False\<rparr>"
  let ?b1 = "\<lparr>features = [[560, 0, 0]], f_sample_count = 3,
        labels = [[[''1'', ''0'', ''0'', ''0'', ''0'']]], l_sample_count = 1, sweep_end = False\<rparr>"
  let ?b2 = "\<lparr>features = [[560, 0, 0], [560, 0, 0, 424]], f_sample_count = 7,
        labels = [[[''1'', ''0'', ''0'', ''0'', ''0'']], [[''0'', ''1'', ''0'', ''0'', ''0'']]],
        l_sample_count = 2, sweep_end = False\<rparr>"
  let ?e0 = "\<lparr>seq_features = [560, 0, 0], seq_labels = Some [[''1'', ''0'', ''0'', ''0'', ''0'']]\<rparr>"
  let ?e2 = "\<lparr>seq_features = [160, 5, 6], seq_labels = Some [[''0'', ''0'', ''1'', ''0'', ''0'']]\<rparr>"
  let ?s1 = "mbs\<lparr>next_seq_idx := 1\<rparr>"
  let ?s2 = "mbs\<lparr>next_seq_idx := 2\<rparr>"
  have w2: "sweep_wrap ?b2 ?s2 = (?b2, ?s2)"
    by (simp add: sweep_wrap_def mbs_def)
  have i2: "seq_id_at ?s2 = Inr 2"
    by (simp add: seq_id_at_def getitem_def mbs_def)
  have m: "py_mod 2 1 = Inr 0" "py_mod 0 1 = Inr 0"
    by (simp_all add: py_mod_def)
  have d2: "map_of (data mbs) 2 = Some ?e2" "map_of (data ?s2) 2 = Some ?e2"
    by (simp_all add: mbs_def)
  from sample_budget_rule[of ?b2 ?s2 ?b2 ?s2 2 1 0 ?e2 "[[''0'', ''0'', ''1'', ''0'', ''0'']]" 8]
    w2 i2 m d2
  have A: "while_loop 8 1 0 ?b2 ?s2 = Some (Inr (?b2, ?s2))"
    by (simp add: truthy_def)
  have w0: "sweep_wrap ?b0 mbs = (?b0, mbs)"
    by (simp add: sweep_wrap_def mbs_def)
  have i0: "seq_id_at mbs = Inr 0"
    by (simp add: seq_id_at_def getitem_def mbs_def)
  have d0: "map_of (data mbs) 0 = Some ?e0"
    by (simp add: mbs_def)
  have c0: "next_seq_idx mbs = 0"
    by (simp add: mbs_def)
  from sample_budget_rule[of ?b0 mbs ?b0 mbs 0 1 0 ?e0 "[[''1'', ''0'', ''0'', ''0'', ''0'']]" 1]
    w0 i0 m d0 c0
  have "while_loop 1 1 0 ?b0 mbs = while_loop 1 1 0 ?b1 ?s1"
    by (simp add: truthy_def)
  also have "\<dots> = Some (Inr (?b1, ?s1))"
    by (rule while_loop_exit) simp
  finally have B: "while_loop 1 1 0 ?b0 mbs = Some (Inr (?b1, ?s1))" .
  have l: "next_seq_idx mbs \<le> int (length (sequences mbs))"
    by (simp add: mbs_def)
  have u: "unchanged_but_cursor mbs mbs"
    by (rule unchanged_but_cursor_refl)
  from sample_budget_rule[of ?b0 mbs ?b0 mbs 0 1 0 ?e0 "[[''1'', ''0'', ''0'', ''0'', ''0'']]" 1
      "''cpu''" _ _ sample_data 1000 5 mbs]
    mbs_constructed mbs_dense_labelled_index u c0 l
  have C: "\<exists>res' self''. next_minibatch 1 1 0 ''cpu'' mbs = Some (Inr (res', self'')) \<and>
                  minibatch_sequences res' \<noteq> []"
    by simp
  from sample_budget_rule[of ?b0 mbs ?b0 mbs 0 1 0 ?e0 "[[''1'', ''0'', ''0'', ''0'', ''0'']]" 1
      "''cpu''" ?res "mbs\<lparr>next_seq_idx := 1\<rparr>"]
    mbs_single_sample_request
  have D: "minibatch_sequences ?res \<noteq> []"
    by simp
  from i2 m d2 A i0 d0 B mbs_constructed mbs_dense_labelled_index u C D mbs_single_sample_request
  show ?thesis
    by simp
qed


end
